theory Spec2Isabelle
  imports Complex_Main
begin

section \<open>Data model of \<^verbatim>\<open>CNeuralNetwork.hpp\<close>\<close>

text \<open>
  The header evaluates a dense feed-forward network and propagates first and second
  derivatives of every neuron output with respect to every network input.

  Numbers of the C++ type \<^verbatim>\<open>mlpdouble\<close> are modelled by \<^typ>\<open>real\<close>: every
  statement below is about exact arithmetic, rounding is not modelled. Counters and sizes
  (\<^verbatim>\<open>size_t\<close>, \<^verbatim>\<open>unsigned long\<close>) are \<^typ>\<open>nat\<close>; a loop
  \<^verbatim>\<open>for (i = 0; i < n; i++)\<close> whose bound \<open>n\<close> the body does not change is a
  \<^const>\<open>fold\<close> over \<open>[0..<n]\<close>. A \<^verbatim>\<open>std::vector\<close> is a list. Indexing a vector out
  of range is undefined in C++; the statements about \<^verbatim>\<open>Predict\<close> are made for sized
  networks, where every index stays in range.
\<close>

text \<open>
  Modelled from the spec: the number type \<^verbatim>\<open>mlpdouble\<close> of \<^verbatim>\<open>variable_def.hpp\<close>, the
  floating-point type in which the network computes values and derivatives alike.
\<close>

type_synonym mlpdouble = real

text \<open>
  Modelled from the spec: the enumeration \<^verbatim>\<open>ENUM_SCALING_FUNCTIONS\<close> of
  \<^verbatim>\<open>variable_def.hpp\<close>, of which the header uses the three enumerators below (min-max,
  standardization, robust). The \<^verbatim>\<open>default:\<close> branches of the switches over it are for
  no strategy that the spec names and have no counterpart here.
\<close>

datatype ENUM_SCALING_FUNCTIONS = MINMAX | STANDARD | ROBUST

text \<open>
  The activation tags. An \<^verbatim>\<open>enum class\<close> object can hold a value that is none of its
  enumerators; the \<^verbatim>\<open>default:\<close> branch of \<^verbatim>\<open>ActivationFunction\<close> is there for such
  a value, which is \<open>UNRECOGNIZED\<close> here. A tag that was never assigned is value-initialised
  by \<^verbatim>\<open>resize\<close> and is \<open>NONE\<close>.
\<close>

datatype ENUM_ACTIVATION_FUNCTION =
  NONE | LINEAR | RELU | ELU | GELU | SELU | SIGMOID | SWISH | TANH | EXPONENTIAL
  | UNRECOGNIZED

text \<open>
  Modelled from the spec: the class \<^verbatim>\<open>CLayer\<close> of \<^verbatim>\<open>CLayer.hpp\<close>. A layer holds its
  neuron count, the flag marking the input layer, one output value and one bias per neuron,
  a first-derivative buffer (per neuron, per input variable) and a second-derivative buffer
  (per neuron, per pair of input variables). Its accessors read and write one entry.
\<close>

record CLayer =
  number_of_neurons :: nat
  is_input :: bool
  neuron_output :: "mlpdouble list"
  bias :: "mlpdouble list"
  dy_dx :: "mlpdouble list list"
  d2y_dx2 :: "mlpdouble list list list"

definition CLayer_GetNNeurons :: "CLayer \<Rightarrow> nat" where
  "CLayer_GetNNeurons l = number_of_neurons l"

definition IsInput :: "CLayer \<Rightarrow> bool" where
  "IsInput l = is_input l"

definition SetOutput :: "CLayer \<Rightarrow> nat \<Rightarrow> mlpdouble \<Rightarrow> CLayer" where
  "SetOutput l i v = l\<lparr>neuron_output := (neuron_output l)[i := v]\<rparr>"

definition GetOutput :: "CLayer \<Rightarrow> nat \<Rightarrow> mlpdouble" where
  "GetOutput l i = neuron_output l ! i"

definition GetBias :: "CLayer \<Rightarrow> nat \<Rightarrow> mlpdouble" where
  "GetBias l i = bias l ! i"

definition SetdYdX :: "CLayer \<Rightarrow> nat \<Rightarrow> nat \<Rightarrow> mlpdouble \<Rightarrow> CLayer" where
  "SetdYdX l i j v = l\<lparr>dy_dx := (dy_dx l)[i := (dy_dx l ! i)[j := v]]\<rparr>"

definition GetdYdX :: "CLayer \<Rightarrow> nat \<Rightarrow> nat \<Rightarrow> mlpdouble" where
  "GetdYdX l i j = dy_dx l ! i ! j"

definition Setd2YdX2 :: "CLayer \<Rightarrow> nat \<Rightarrow> nat \<Rightarrow> nat \<Rightarrow> mlpdouble \<Rightarrow> CLayer" where
  "Setd2YdX2 l i j k v =
     l\<lparr>d2y_dx2 := (d2y_dx2 l)[i := (d2y_dx2 l ! i)[j := (d2y_dx2 l ! i ! j)[k := v]]]\<rparr>"

definition Getd2YdX2 :: "CLayer \<Rightarrow> nat \<Rightarrow> nat \<Rightarrow> nat \<Rightarrow> mlpdouble" where
  "Getd2YdX2 l i j k = d2y_dx2 l ! i ! j ! k"

text \<open>
  The network. The members \<^verbatim>\<open>inputLayer\<close>, \<^verbatim>\<open>outputLayer\<close> and \<^verbatim>\<open>hiddenLayers\<close> are
  pointers to the same objects as the entries of \<^verbatim>\<open>total_layers\<close> once \<^verbatim>\<open>SizeWeights\<close>
  has run: the input layer is entry \<open>0\<close>, the output layer the last entry. The model keeps
  the layers in \<open>total_layers\<close> only and reads the two pointers as these positions, so a write
  through \<^verbatim>\<open>inputLayer\<close> is seen through \<^verbatim>\<open>total_layers[0]\<close>, as in the code.
\<close>

record CNeuralNetwork =
  input_names :: "string list"
  output_names :: "string list"
  n_hidden_layers :: nat
  total_layers :: "CLayer list"
  weights_mat :: "mlpdouble list list list"
  input_norm :: "(mlpdouble \<times> mlpdouble) list"
  output_norm :: "(mlpdouble \<times> mlpdouble) list"
  ANN_outputs :: "mlpdouble list"
  dOutputs_dInputs :: "mlpdouble list list"
  d2Outputs_dInputs2 :: "mlpdouble list list list"
  Phi :: mlpdouble
  Phi_prime :: mlpdouble
  Phi_dprime :: mlpdouble
  compute_gradient :: bool
  compute_second_gradient :: bool
  activation_function_types :: "ENUM_ACTIVATION_FUNCTION list"
  activation_function_names :: "string list"
  input_reg_method :: ENUM_SCALING_FUNCTIONS
  output_reg_method :: ENUM_SCALING_FUNCTIONS

definition inputLayer_index :: "CNeuralNetwork \<Rightarrow> nat" where
  "inputLayer_index net = 0"

definition outputLayer_index :: "CNeuralNetwork \<Rightarrow> nat" where
  "outputLayer_index net = length (total_layers net) - 1"

definition inputLayer :: "CNeuralNetwork \<Rightarrow> CLayer" where
  "inputLayer net = total_layers net ! inputLayer_index net"

definition outputLayer :: "CNeuralNetwork \<Rightarrow> CLayer" where
  "outputLayer net = total_layers net ! outputLayer_index net"

text \<open>A call \<^verbatim>\<open>total_layers[iLayer]->Set...(...)\<close>: the layer object is changed in place.\<close>

definition update_layer :: "nat \<Rightarrow> (CLayer \<Rightarrow> CLayer) \<Rightarrow> CNeuralNetwork \<Rightarrow> CNeuralNetwork" where
  "update_layer iLayer f net =
     net\<lparr>total_layers := (total_layers net)[iLayer := f (total_layers net ! iLayer)]\<rparr>"

definition GetNNeurons :: "CNeuralNetwork \<Rightarrow> nat \<Rightarrow> nat" where
  "GetNNeurons net iLayer = CLayer_GetNNeurons (total_layers net ! iLayer)"

definition GetnInputs :: "CNeuralNetwork \<Rightarrow> nat" where
  "GetnInputs net = length (input_names net)"

definition GetnOutputs :: "CNeuralNetwork \<Rightarrow> nat" where
  "GetnOutputs net = length (output_names net)"

definition GetInputName :: "CNeuralNetwork \<Rightarrow> nat \<Rightarrow> string" where
  "GetInputName net iInput = input_names net ! iInput"

definition GetOutputName :: "CNeuralNetwork \<Rightarrow> nat \<Rightarrow> string" where
  "GetOutputName net iOutput = output_names net ! iOutput"

section \<open>Activation functions\<close>

text \<open>
  \<^verbatim>\<open>ActivationFunction\<close> writes the members \<open>Phi\<close>, \<open>Phi_prime\<close> and \<open>Phi_dprime\<close>; a member
  that a branch does not assign keeps the value of the previous evaluation. The error
  function \<^verbatim>\<open>erf\<close> of the C library, used by the GELU branch, is given by its power
  series.
\<close>

definition erf :: "real \<Rightarrow> real" where
  "erf x = 2 / sqrt pi * (\<Sum>n. (- 1) ^ n * x ^ (2 * n + 1) / (fact n * real (2 * n + 1)))"

definition ActivationFunction :: "CNeuralNetwork \<Rightarrow> nat \<Rightarrow> mlpdouble \<Rightarrow> CNeuralNetwork" where
  "ActivationFunction net iLayer input =
    (let alpha = 1.67326324; lambda = 1.05070098; gelu_c = 1.702 :: real in
     case activation_function_types net ! iLayer of
       ELU \<Rightarrow>
         if input > 0 then
           (let net = net\<lparr>Phi := input\<rparr> in
            if compute_gradient net then
              (let net = net\<lparr>Phi_prime := 1\<rparr> in
               if compute_second_gradient net then net\<lparr>Phi_dprime := 0\<rparr> else net)
            else net)
         else
           (let exp_x = exp input; net = net\<lparr>Phi := exp_x - 1\<rparr> in
            if compute_gradient net then
              (let net = net\<lparr>Phi_prime := exp_x\<rparr> in
               if compute_second_gradient net then net\<lparr>Phi_dprime := exp_x\<rparr> else net)
            else net)
     | LINEAR \<Rightarrow>
         (let net = net\<lparr>Phi := input\<rparr> in
          if compute_gradient net then
            (let net = net\<lparr>Phi_prime := 1\<rparr> in
             if compute_second_gradient net then net\<lparr>Phi_dprime := 0\<rparr> else net)
          else net)
     | EXPONENTIAL \<Rightarrow>
         (let net = net\<lparr>Phi := exp input\<rparr> in
          if compute_gradient net then
            (let net = net\<lparr>Phi_prime := Phi net\<rparr> in
             if compute_second_gradient net then net\<lparr>Phi_dprime := Phi net\<rparr> else net)
          else net)
     | RELU \<Rightarrow>
         (let net =
            (if input > 0 then
               (let net = net\<lparr>Phi := input\<rparr> in
                if compute_gradient net then net\<lparr>Phi_prime := 1\<rparr> else net)
             else
               (let net = net\<lparr>Phi := 0\<rparr> in
                if compute_gradient net then net\<lparr>Phi_prime := 0\<rparr> else net)) in
          if compute_second_gradient net then net\<lparr>Phi_dprime := 0\<rparr> else net)
     | SWISH \<Rightarrow>
         (let net = net\<lparr>Phi := input / (1 + exp (- input))\<rparr> in
          if compute_gradient net then
            (let exp_x = exp input;
                 net = net\<lparr>Phi_prime := exp_x * (input + exp_x + 1) / (exp_x + 1) ^ 2\<rparr> in
             if compute_second_gradient net then
               net\<lparr>Phi_dprime :=
                     exp_x * (- exp_x * (input - 2) + input + 2) / (exp_x + 1) ^ 3\<rparr>
             else net)
          else net)
     | TANH \<Rightarrow>
         (let tanh_x = tanh input; net = net\<lparr>Phi := tanh_x\<rparr> in
          if compute_gradient net then
            (let net = net\<lparr>Phi_prime := 1 / (cosh input) ^ 2\<rparr> in
             if compute_second_gradient net then
               net\<lparr>Phi_dprime := - 2 * tanh_x * 1 / ((cosh input) ^ 2)\<rparr>
             else net)
          else net)
     | SIGMOID \<Rightarrow>
         (let exp_x = exp (- input); net = net\<lparr>Phi := 1 / (1 + exp_x)\<rparr> in
          if compute_gradient net then
            (let net = net\<lparr>Phi_prime := exp_x / (exp_x + 1) ^ 2\<rparr> in
             if compute_second_gradient net then
               (let exp_x = exp input in
                net\<lparr>Phi_dprime := - (exp_x * (exp_x - 1)) / (exp_x + 1) ^ 3\<rparr>)
             else net)
          else net)
     | SELU \<Rightarrow>
         if input > 0 then
           (let net = net\<lparr>Phi := lambda * input\<rparr> in
            if compute_gradient net then
              (let net = net\<lparr>Phi_prime := lambda\<rparr> in
               if compute_second_gradient net then net\<lparr>Phi_dprime := 0\<rparr> else net)
            else net)
         else
           (let exp_x = exp input; net = net\<lparr>Phi := lambda * alpha * (exp_x - 1)\<rparr> in
            if compute_gradient net then
              (let net = net\<lparr>Phi_prime := Phi net + lambda * alpha\<rparr> in
               if compute_second_gradient net then net\<lparr>Phi_dprime := Phi_prime net\<rparr> else net)
            else net)
     | GELU \<Rightarrow>
         (let net = net\<lparr>Phi := 0.5 * input * (1 + erf (input / sqrt 2))\<rparr> in
          if compute_gradient net then
            (let exp_x = exp (- gelu_c * input);
                 net = net\<lparr>Phi_prime :=
                              exp_x * (gelu_c * input + exp_x + 1) / (exp_x + 1) ^ 2\<rparr> in
             if compute_second_gradient net then
               net\<lparr>Phi_dprime :=
                     input * ((5.79361 * exp_x ^ 2 / (exp_x + 1) ^ 3) -
                              (2.8968 * exp_x / (exp_x + 1) ^ 2)) +
                     3.404 * exp_x / (exp_x + 1) ^ 2\<rparr>
             else net)
          else net)
     | NONE \<Rightarrow>
         (let net = net\<lparr>Phi := 0\<rparr> in
          if compute_gradient net then
            (let net = net\<lparr>Phi_prime := 0\<rparr> in
             if compute_second_gradient net then net\<lparr>Phi_dprime := 0\<rparr> else net)
          else net)
     | UNRECOGNIZED \<Rightarrow> net)"

section \<open>Normalization\<close>

definition NormalizeInput :: "CNeuralNetwork \<Rightarrow> mlpdouble \<Rightarrow> nat \<Rightarrow> mlpdouble" where
  "NormalizeInput net val_input_dim iInput =
     (case input_reg_method net of
        MINMAX \<Rightarrow>
          (val_input_dim - fst (input_norm net ! iInput)) /
          (snd (input_norm net ! iInput) - fst (input_norm net ! iInput))
      | STANDARD \<Rightarrow> (val_input_dim - fst (input_norm net ! iInput)) / snd (input_norm net ! iInput)
      | ROBUST \<Rightarrow> (val_input_dim - fst (input_norm net ! iInput)) / snd (input_norm net ! iInput))"

definition GetRegularizationScale :: "CNeuralNetwork \<Rightarrow> nat \<Rightarrow> bool \<Rightarrow> mlpdouble" where
  "GetRegularizationScale net iInput is_inp =
     (case input_reg_method net of
        MINMAX \<Rightarrow>
          if is_inp then snd (input_norm net ! iInput) - fst (input_norm net ! iInput)
          else snd (output_norm net ! iInput) - fst (output_norm net ! iInput)
      | STANDARD \<Rightarrow>
          if is_inp then snd (input_norm net ! iInput) else snd (output_norm net ! iInput)
      | ROBUST \<Rightarrow>
          if is_inp then snd (input_norm net ! iInput) else snd (output_norm net ! iInput))"

definition DimensionalizeOutput :: "CNeuralNetwork \<Rightarrow> mlpdouble \<Rightarrow> nat \<Rightarrow> mlpdouble" where
  "DimensionalizeOutput net val_output_norm iOutput =
     (case input_reg_method net of
        MINMAX \<Rightarrow>
          (snd (output_norm net ! iOutput) - fst (output_norm net ! iOutput)) * val_output_norm
          + fst (output_norm net ! iOutput)
      | STANDARD \<Rightarrow>
          snd (output_norm net ! iOutput) * val_output_norm + fst (output_norm net ! iOutput)
      | ROBUST \<Rightarrow>
          snd (output_norm net ! iOutput) * val_output_norm + fst (output_norm net ! iOutput))"

section \<open>Assigning an activation function by name\<close>

text \<open>
  \<^verbatim>\<open>activation_function_map\<close> is a \<^verbatim>\<open>std::map\<close> from names to tags; \<^verbatim>\<open>find\<close> is
  \<^const>\<open>map_of\<close> on its entries. \<^verbatim>\<open>SetActivationFunction\<close> reads \<^verbatim>\<open>find(input)->second\<close>
  without comparing the iterator with \<^verbatim>\<open>end()\<close>. For a name that is not a key the read goes
  through the past-the-end iterator, to which C++ gives no meaning; the value such a read
  delivers is the parameter \<open>end_second\<close>.
\<close>

definition activation_function_map :: "(string \<times> ENUM_ACTIVATION_FUNCTION) list" where
  "activation_function_map =
     [(''none'', NONE), (''linear'', LINEAR), (''elu'', ELU), (''relu'', RELU),
      (''gelu'', GELU), (''selu'', SELU), (''sigmoid'', SIGMOID), (''swish'', SWISH),
      (''tanh'', TANH), (''exponential'', EXPONENTIAL)]"

definition SetActivationFunction ::
  "ENUM_ACTIVATION_FUNCTION \<Rightarrow> CNeuralNetwork \<Rightarrow> nat \<Rightarrow> string \<Rightarrow> CNeuralNetwork" where
  "SetActivationFunction end_second net i_layer input =
     (let net = net\<lparr>activation_function_names :=
                      (activation_function_names net)[i_layer := input]\<rparr> in
      net\<lparr>activation_function_types :=
            (activation_function_types net)[i_layer :=
               (case map_of activation_function_map input of
                  Some t \<Rightarrow> t
                | None \<Rightarrow> end_second)]\<rparr>)"

section \<open>Variable matching\<close>

record MatchResult =
  is_match :: bool
  input_indices :: "(nat \<times> nat) list"
  output_indices :: "(nat \<times> nat) list"

text \<open>
  The loop that fills a \<^verbatim>\<open>std::unordered_map\<close> with \<open>names[i] \<mapsto> i\<close>: a later duplicate
  overwrites an earlier entry.
\<close>

definition lookup_map :: "string list \<Rightarrow> (string \<rightharpoonup> nat)" where
  "lookup_map names = fold (\<lambda>i m. m(names ! i \<mapsto> i)) [0..<length names] Map.empty"

text \<open>
  The loop over the network inputs. \<open>Inl\<close> is the early \<^verbatim>\<open>return result\<close> inside the
  loop, \<open>Inr\<close> the result with which the function goes on after the loop.
\<close>

fun match_inputs_loop ::
  "CNeuralNetwork \<Rightarrow> (string \<rightharpoonup> nat) \<Rightarrow> nat list \<Rightarrow> MatchResult \<Rightarrow> MatchResult + MatchResult" where
  "match_inputs_loop net lookup_input_map [] result = Inr result"
| "match_inputs_loop net lookup_input_map (i # rest) result =
     (case lookup_input_map (GetInputName net i) of
        None \<Rightarrow> Inl (result\<lparr>input_indices := []\<rparr>)
      | Some k \<Rightarrow>
          match_inputs_loop net lookup_input_map rest
            (result\<lparr>input_indices := input_indices result @ [(k, i)]\<rparr>))"

definition match_outputs_loop ::
  "CNeuralNetwork \<Rightarrow> (string \<rightharpoonup> nat) \<Rightarrow> MatchResult \<Rightarrow> MatchResult" where
  "match_outputs_loop net lookup_output_map result =
     fold (\<lambda>i result.
             case lookup_output_map (GetOutputName net i) of
               None \<Rightarrow> result
             | Some k \<Rightarrow> result\<lparr>output_indices := output_indices result @ [(k, i)]\<rparr>)
          [0..<GetnOutputs net] result"

definition GetVariableMapping ::
  "CNeuralNetwork \<Rightarrow> string list \<Rightarrow> string list \<Rightarrow> MatchResult" where
  "GetVariableMapping net lookup_inputs lookup_outputs =
     (let result = \<lparr>is_match = False, input_indices = [], output_indices = []\<rparr> in
      if GetnInputs net > length lookup_inputs then result
      else
        (let lookup_input_map = lookup_map lookup_inputs in
         case match_inputs_loop net lookup_input_map [0..<GetnInputs net] result of
           Inl result \<Rightarrow> result
         | Inr result \<Rightarrow>
             (let lookup_output_map = lookup_map lookup_outputs;
                  result = match_outputs_loop net lookup_output_map result in
              if output_indices result = [] then result
              else result\<lparr>is_match := True\<rparr>)))"

section \<open>Forward pass and derivative propagation\<close>

definition ComputeX :: "CNeuralNetwork \<Rightarrow> nat \<Rightarrow> nat \<Rightarrow> mlpdouble" where
  "ComputeX net iLayer iNeuron =
     (let x = GetBias (total_layers net ! iLayer) iNeuron;
          nNeurons_previous = CLayer_GetNNeurons (total_layers net ! (iLayer - 1)) in
      fold (\<lambda>jNeuron x.
              x + weights_mat net ! (iLayer - 1) ! iNeuron ! jNeuron *
                  GetOutput (total_layers net ! (iLayer - 1)) jNeuron)
           [0..<nNeurons_previous] x)"

definition ComputePsi :: "CNeuralNetwork \<Rightarrow> nat \<Rightarrow> nat \<Rightarrow> nat \<Rightarrow> mlpdouble" where
  "ComputePsi net iLayer iNeuron jInput =
     fold (\<lambda>jNeuron psi.
             psi + weights_mat net ! (iLayer - 1) ! iNeuron ! jNeuron *
                   GetdYdX (total_layers net ! (iLayer - 1)) jNeuron jInput)
          [0..<CLayer_GetNNeurons (total_layers net ! (iLayer - 1))] 0"

definition ComputeChi :: "CNeuralNetwork \<Rightarrow> nat \<Rightarrow> nat \<Rightarrow> nat \<Rightarrow> nat \<Rightarrow> mlpdouble" where
  "ComputeChi net iLayer iNeuron jInput kInput =
     fold (\<lambda>jNeuron chi.
             chi + weights_mat net ! (iLayer - 1) ! iNeuron ! jNeuron *
                   Getd2YdX2 (total_layers net ! (iLayer - 1)) jNeuron jInput kInput)
          [0..<CLayer_GetNNeurons (total_layers net ! (iLayer - 1))] 0"

text \<open>
  The nested loops of \<^verbatim>\<open>ComputeInputLayer\<close>, \<^verbatim>\<open>Predict\<close> and \<^verbatim>\<open>DeNormalizeOutputs\<close>
  are written one definition per loop, from the innermost outwards; a definition named
  after a loop variable is the body of the loop over that variable.
\<close>

definition ComputeInputLayer_kInput :: "nat \<Rightarrow> nat \<Rightarrow> nat \<Rightarrow> CNeuralNetwork \<Rightarrow> CNeuralNetwork" where
  "ComputeInputLayer_kInput iNeuron jInput kInput net =
     update_layer (inputLayer_index net) (\<lambda>l. Setd2YdX2 l iNeuron jInput kInput 0) net"

definition ComputeInputLayer_jInput :: "nat \<Rightarrow> nat \<Rightarrow> CNeuralNetwork \<Rightarrow> CNeuralNetwork" where
  "ComputeInputLayer_jInput iNeuron jInput net =
     (let net =
        (if jInput = iNeuron then
           update_layer (inputLayer_index net)
             (\<lambda>l. SetdYdX l iNeuron jInput (1 / GetRegularizationScale net iNeuron True)) net
         else update_layer (inputLayer_index net) (\<lambda>l. SetdYdX l iNeuron jInput 0) net)
      in
      if compute_second_gradient net then
        fold (ComputeInputLayer_kInput iNeuron jInput)
             [0..<CLayer_GetNNeurons (inputLayer net)] net
      else net)"

definition ComputeInputLayer :: "CNeuralNetwork \<Rightarrow> mlpdouble list \<Rightarrow> nat \<Rightarrow> CNeuralNetwork" where
  "ComputeInputLayer net inputs iNeuron =
     (let x_norm = NormalizeInput net (inputs ! iNeuron) iNeuron;
          net = update_layer (inputLayer_index net) (\<lambda>l. SetOutput l iNeuron x_norm) net in
      if compute_gradient net then
        fold (ComputeInputLayer_jInput iNeuron) [0..<CLayer_GetNNeurons (inputLayer net)] net
      else net)"

definition Predict_kInput ::
  "nat \<Rightarrow> nat \<Rightarrow> nat \<Rightarrow> mlpdouble \<Rightarrow> nat \<Rightarrow> CNeuralNetwork \<Rightarrow> CNeuralNetwork" where
  "Predict_kInput iLayer iNeuron jInput psi_j kInput net =
     (let psi_k = ComputePsi net iLayer iNeuron kInput;
          chi = ComputeChi net iLayer iNeuron jInput kInput;
          d2Yi_dIjdIk = Phi_dprime net * psi_j * psi_k + Phi_prime net * chi in
      update_layer iLayer (\<lambda>l. Setd2YdX2 l iNeuron jInput kInput d2Yi_dIjdIk) net)"

definition Predict_jInput :: "nat \<Rightarrow> nat \<Rightarrow> nat \<Rightarrow> CNeuralNetwork \<Rightarrow> CNeuralNetwork" where
  "Predict_jInput iLayer iNeuron jInput net =
     (let psi_j = ComputePsi net iLayer iNeuron jInput;
          dYi_dIj = psi_j * Phi_prime net;
          net = update_layer iLayer (\<lambda>l. SetdYdX l iNeuron jInput dYi_dIj) net in
      if compute_second_gradient net then
        fold (Predict_kInput iLayer iNeuron jInput psi_j)
             [0..<CLayer_GetNNeurons (inputLayer net)] net
      else net)"

definition Predict_iNeuron ::
  "mlpdouble list \<Rightarrow> nat \<Rightarrow> nat \<Rightarrow> CNeuralNetwork \<Rightarrow> CNeuralNetwork" where
  "Predict_iNeuron inputs iLayer iNeuron net =
     (if IsInput (total_layers net ! iLayer) then ComputeInputLayer net inputs iNeuron
      else
        (let X = ComputeX net iLayer iNeuron;
             net = ActivationFunction net iLayer X;
             Yi = Phi net;
             net = update_layer iLayer (\<lambda>l. SetOutput l iNeuron Yi) net in
         if compute_gradient net then
           fold (Predict_jInput iLayer iNeuron) [0..<CLayer_GetNNeurons (inputLayer net)] net
         else net))"

definition Predict_iLayer :: "mlpdouble list \<Rightarrow> nat \<Rightarrow> CNeuralNetwork \<Rightarrow> CNeuralNetwork" where
  "Predict_iLayer inputs iLayer net =
     fold (Predict_iNeuron inputs iLayer)
          [0..<CLayer_GetNNeurons (total_layers net ! iLayer)] net"

text \<open>
  \<open>Predict_layers\<close> is the loop nest of \<^verbatim>\<open>Predict\<close>, the state in which \<^verbatim>\<open>Predict\<close>
  calls \<^verbatim>\<open>DeNormalizeOutputs\<close>.
\<close>

definition Predict_layers :: "CNeuralNetwork \<Rightarrow> mlpdouble list \<Rightarrow> CNeuralNetwork" where
  "Predict_layers net inputs = fold (Predict_iLayer inputs) [0..<n_hidden_layers net + 2] net"

definition DeNormalizeOutputs_kInput ::
  "nat \<Rightarrow> mlpdouble \<Rightarrow> nat \<Rightarrow> nat \<Rightarrow> CNeuralNetwork \<Rightarrow> CNeuralNetwork" where
  "DeNormalizeOutputs_kInput iNeuron output_scale jInput kInput net =
     (let net =
        update_layer (outputLayer_index net)
          (\<lambda>l. Setd2YdX2 l iNeuron jInput kInput
                 (output_scale * Getd2YdX2 (outputLayer net) iNeuron jInput kInput)) net in
      net\<lparr>d2Outputs_dInputs2 :=
            (d2Outputs_dInputs2 net)[iNeuron :=
               (d2Outputs_dInputs2 net ! iNeuron)[jInput :=
                  (d2Outputs_dInputs2 net ! iNeuron ! jInput)[kInput :=
                     Getd2YdX2 (outputLayer net) iNeuron jInput kInput]]]\<rparr>)"

definition DeNormalizeOutputs_jInput ::
  "nat \<Rightarrow> mlpdouble \<Rightarrow> nat \<Rightarrow> CNeuralNetwork \<Rightarrow> CNeuralNetwork" where
  "DeNormalizeOutputs_jInput iNeuron output_scale jInput net =
     (let net =
        update_layer (outputLayer_index net)
          (\<lambda>l. SetdYdX l iNeuron jInput
                 (output_scale * GetdYdX (outputLayer net) iNeuron jInput)) net;
          net = net\<lparr>dOutputs_dInputs :=
                  (dOutputs_dInputs net)[iNeuron :=
                     (dOutputs_dInputs net ! iNeuron)[jInput :=
                        GetdYdX (outputLayer net) iNeuron jInput]]\<rparr> in
      if compute_second_gradient net then
        fold (DeNormalizeOutputs_kInput iNeuron output_scale jInput)
             [0..<CLayer_GetNNeurons (inputLayer net)] net
      else net)"

definition DeNormalizeOutputs_iNeuron :: "nat \<Rightarrow> CNeuralNetwork \<Rightarrow> CNeuralNetwork" where
  "DeNormalizeOutputs_iNeuron iNeuron net =
     (let y_norm = GetOutput (outputLayer net) iNeuron;
          output_scale = GetRegularizationScale net iNeuron False;
          Y_out = DimensionalizeOutput net y_norm iNeuron;
          net = net\<lparr>ANN_outputs := (ANN_outputs net)[iNeuron := Y_out]\<rparr> in
      if compute_gradient net then
        fold (DeNormalizeOutputs_jInput iNeuron output_scale)
             [0..<CLayer_GetNNeurons (inputLayer net)] net
      else net)"

definition DeNormalizeOutputs :: "CNeuralNetwork \<Rightarrow> CNeuralNetwork" where
  "DeNormalizeOutputs net =
     fold DeNormalizeOutputs_iNeuron [0..<CLayer_GetNNeurons (outputLayer net)] net"

definition Predict :: "CNeuralNetwork \<Rightarrow> mlpdouble list \<Rightarrow> CNeuralNetwork" where
  "Predict net inputs = DeNormalizeOutputs (Predict_layers net inputs)"

section \<open>Sized networks\<close>

text \<open>
  The state after the construction calls (\<^verbatim>\<open>DefineInputLayer\<close>, \<^verbatim>\<open>DefineOutputLayer\<close>,
  \<^verbatim>\<open>PushHiddenLayer\<close>, \<^verbatim>\<open>SizeActivationFunctions\<close>) and \<^verbatim>\<open>SizeWeights\<close>: at least one
  hidden layer (\<^verbatim>\<open>SizeWeights\<close> reads \<^verbatim>\<open>hiddenLayers[0]\<close>), the input flag on the first
  layer only, every buffer of every layer allocated for its neuron count and the number of
  network inputs, one weight row per neuron with one weight per neuron of the layer before,
  one tag per layer, and the names, normalization pairs and result buffers of the network
  sized to its inputs and outputs.
\<close>

definition layer_sized :: "nat \<Rightarrow> CLayer \<Rightarrow> bool" where
  "layer_sized nInputs l \<longleftrightarrow>
     length (neuron_output l) = number_of_neurons l \<and>
     length (bias l) = number_of_neurons l \<and>
     length (dy_dx l) = number_of_neurons l \<and>
     list_all (\<lambda>row. length row = nInputs) (dy_dx l) \<and>
     length (d2y_dx2 l) = number_of_neurons l \<and>
     list_all (\<lambda>mat. length mat = nInputs \<and> list_all (\<lambda>row. length row = nInputs) mat)
       (d2y_dx2 l)"

definition sized :: "CNeuralNetwork \<Rightarrow> bool" where
  "sized net \<longleftrightarrow>
     (let layers = total_layers net;
          nInputs = number_of_neurons (hd layers);
          nOutputs = number_of_neurons (last layers) in
      1 \<le> n_hidden_layers net \<and>
      length layers = n_hidden_layers net + 2 \<and>
      is_input (hd layers) \<and>
      list_all (\<lambda>l. \<not> is_input l) (tl layers) \<and>
      list_all (layer_sized nInputs) layers \<and>
      list_all2 (\<lambda>w l. length w = number_of_neurons l) (weights_mat net) (tl layers) \<and>
      list_all2 (\<lambda>w l. list_all (\<lambda>row. length row = number_of_neurons l) w)
        (weights_mat net) (butlast layers) \<and>
      length (activation_function_types net) = length layers \<and>
      length (input_names net) = nInputs \<and>
      length (input_norm net) = nInputs \<and>
      length (output_names net) = nOutputs \<and>
      length (output_norm net) = nOutputs \<and>
      length (ANN_outputs net) = nOutputs \<and>
      length (dOutputs_dInputs net) = nOutputs \<and>
      list_all (\<lambda>row. length row = nInputs) (dOutputs_dInputs net) \<and>
      length (d2Outputs_dInputs2 net) = nOutputs \<and>
      list_all (\<lambda>mat. length mat = nInputs \<and> list_all (\<lambda>row. length row = nInputs) mat)
        (d2Outputs_dInputs2 net))"

text \<open>
  A small sized network for concrete evaluation: two inputs \<open>u\<close>, \<open>v\<close>, one hidden layer of
  two neurons, one output \<open>y\<close>, all buffers zero.
\<close>

definition zero_layer :: "nat \<Rightarrow> nat \<Rightarrow> bool \<Rightarrow> CLayer" where
  "zero_layer n nInputs inp =
     \<lparr>number_of_neurons = n, is_input = inp,
      neuron_output = replicate n 0, bias = replicate n 0,
      dy_dx = replicate n (replicate nInputs 0),
      d2y_dx2 = replicate n (replicate nInputs (replicate nInputs 0))\<rparr>"

definition example_net :: CNeuralNetwork where
  "example_net =
     \<lparr>input_names = [''u'', ''v''], output_names = [''y''],
      n_hidden_layers = 1,
      total_layers = [zero_layer 2 2 True, zero_layer 2 2 False, zero_layer 1 2 False],
      weights_mat = [[[1, 0], [0, 1]], [[1, 1]]],
      input_norm = [(0, 1), (0, 1)], output_norm = [(0, 1)],
      ANN_outputs = [0],
      dOutputs_dInputs = [[0, 0]],
      d2Outputs_dInputs2 = [[[0, 0], [0, 0]]],
      Phi = 0, Phi_prime = 0, Phi_dprime = 0,
      compute_gradient = False, compute_second_gradient = False,
      activation_function_types = [NONE, LINEAR, LINEAR],
      activation_function_names = ['''', ''linear'', ''linear''],
      input_reg_method = MINMAX, output_reg_method = MINMAX\<rparr>"

text \<open>
  The example network with both derivative modes enabled, after the calls
  \<^verbatim>\<open>SetActivationFunction(2, "exponential")\<close> and \<^verbatim>\<open>SetActivationFunction(1, "softmax")\<close>.
  The name \<open>softmax\<close> is not a key of the map; the read through the past-the-end iterator
  is taken to deliver a value that is none of the enumerators.
\<close>

definition example_softmax :: CNeuralNetwork where
  "example_softmax =
     SetActivationFunction UNRECOGNIZED
       (SetActivationFunction UNRECOGNIZED
          (example_net\<lparr>compute_gradient := True, compute_second_gradient := True\<rparr>)
          2 ''exponential'')
       1 ''softmax''"

section \<open>Notions used in the statements and proofs about \<^verbatim>\<open>Predict\<close>\<close>

text \<open>
  The chain rule of C1 in the words of the spec, for neuron \<open>i\<close> of layer \<open>l\<close> and input
  \<open>j\<close> in a network state \<open>s\<close>: with \<open>X\<close> the bias plus the weighted sum of the outputs of
  the previous layer, \<open>psi j\<close> the weighted sum of the previous layer's derivatives with
  respect to input \<open>j\<close>, \<open>chi j k\<close> the weighted sum of its second derivatives, and \<open>Phi1\<close>,
  \<open>Phi2\<close> the first and second derivative that the activation evaluator of the layer
  delivers at \<open>X\<close>, the stored derivative is \<open>Phi1 * psi j\<close> and, in second-derivative mode,
  the stored second derivative for \<open>(j, k)\<close> is \<open>Phi2 * psi j * psi k + Phi1 * chi j k\<close>.
\<close>

definition chain_rule_stored :: "CNeuralNetwork \<Rightarrow> nat \<Rightarrow> nat \<Rightarrow> nat \<Rightarrow> bool" where
  "chain_rule_stored s l i j \<longleftrightarrow>
     (let prev = total_layers s ! (l - 1);
          w = weights_mat s ! (l - 1) ! i;
          n = number_of_neurons prev;
          X = GetBias (total_layers s ! l) i + (\<Sum>q<n. w ! q * GetOutput prev q);
          Phi1 = Phi_prime (ActivationFunction s l X);
          Phi2 = Phi_dprime (ActivationFunction s l X);
          psi = (\<lambda>j. \<Sum>q<n. w ! q * GetdYdX prev q j);
          chi = (\<lambda>j k. \<Sum>q<n. w ! q * Getd2YdX2 prev q j k)
      in GetdYdX (total_layers s ! l) i j = Phi1 * psi j \<and>
         (compute_second_gradient s \<longrightarrow>
            (\<forall>k<number_of_neurons (total_layers s ! 0).
               Getd2YdX2 (total_layers s ! l) i j k = Phi2 * psi j * psi k + Phi1 * chi j k)))"

text \<open>
  What an evaluation never changes in a layer (\<open>layer_static\<close>: counts, flag, biases and
  the sizes of the buffers) and in the network (\<open>static\<close>); \<open>hidden_frame\<close> adds the
  contents of all layers but the output layer, and \<open>gradient_buffers\<close> collects the
  derivative buffers of the layers and of the network.
\<close>

definition layer_static ::
  "CLayer \<Rightarrow> nat \<times> bool \<times> mlpdouble list \<times> nat \<times> nat list \<times> nat list list" where
  "layer_static l =
     (number_of_neurons l, is_input l, bias l, length (neuron_output l),
      map length (dy_dx l), map (map length) (d2y_dx2 l))"

definition static ::
  "CNeuralNetwork \<Rightarrow>
   nat \<times> mlpdouble list list list \<times> bool \<times> bool \<times> ENUM_ACTIVATION_FUNCTION list \<times>
   (mlpdouble \<times> mlpdouble) list \<times> (mlpdouble \<times> mlpdouble) list \<times> ENUM_SCALING_FUNCTIONS \<times>
   (nat \<times> bool \<times> mlpdouble list \<times> nat \<times> nat list \<times> nat list list) list" where
  "static net =
     (n_hidden_layers net, weights_mat net, compute_gradient net, compute_second_gradient net,
      activation_function_types net, input_norm net, output_norm net, input_reg_method net,
      map layer_static (total_layers net))"

definition hidden_frame ::
  "CNeuralNetwork \<Rightarrow>
   (nat \<times> mlpdouble list list list \<times> bool \<times> bool \<times> ENUM_ACTIVATION_FUNCTION list \<times>
    (mlpdouble \<times> mlpdouble) list \<times> (mlpdouble \<times> mlpdouble) list \<times> ENUM_SCALING_FUNCTIONS \<times>
    (nat \<times> bool \<times> mlpdouble list \<times> nat \<times> nat list \<times> nat list list) list) \<times> CLayer list" where
  "hidden_frame s = (static s, butlast (total_layers s))"

definition gradient_buffers ::
  "CNeuralNetwork \<Rightarrow> mlpdouble list list list \<times> mlpdouble list list list list
                    \<times> mlpdouble list list \<times> mlpdouble list list list" where
  "gradient_buffers net =
     (map dy_dx (total_layers net), map d2y_dx2 (total_layers net),
      dOutputs_dInputs net, d2Outputs_dInputs2 net)"

text \<open>
  The effect of \<open>Predict_iNeuron\<close> on the layer of the neuron, for given values of the
  activation (\<open>y\<close>, \<open>p1\<close>, \<open>p2\<close>) and of the weighted sums (\<open>psi\<close>, \<open>chi\<close>); \<open>row_ok\<close> says
  that the buffers of neuron \<open>i\<close> have room for \<open>nIn\<close> inputs.
\<close>

definition neuron_update ::
  "bool \<Rightarrow> bool \<Rightarrow> nat \<Rightarrow> nat \<Rightarrow> mlpdouble \<Rightarrow> mlpdouble \<Rightarrow> mlpdouble \<Rightarrow>
   (nat \<Rightarrow> mlpdouble) \<Rightarrow> (nat \<Rightarrow> nat \<Rightarrow> mlpdouble) \<Rightarrow> CLayer \<Rightarrow> CLayer" where
  "neuron_update cg csg nIn i y p1 p2 psi chi lay =
     (if cg then
        fold (\<lambda>j lay.
                if csg then
                  fold (\<lambda>k lay. Setd2YdX2 lay i j k (p2 * psi j * psi k + p1 * chi j k))
                       [0..<nIn] (SetdYdX lay i j (psi j * p1))
                else SetdYdX lay i j (psi j * p1))
             [0..<nIn] (SetOutput lay i y)
      else SetOutput lay i y)"

definition row_ok :: "nat \<Rightarrow> nat \<Rightarrow> CLayer \<Rightarrow> bool" where
  "row_ok nIn i lay \<longleftrightarrow>
     i < length (dy_dx lay) \<and> length (dy_dx lay ! i) = nIn \<and>
     i < length (d2y_dx2 lay) \<and> length (d2y_dx2 lay ! i) = nIn \<and>
     (\<forall>j<nIn. length (d2y_dx2 lay ! i ! j) = nIn)"

text \<open>
  The effect of \<open>DeNormalizeOutputs_iNeuron\<close> on the output layer, for the output scale
  \<open>c\<close> of the neuron.
\<close>

definition rescale_neuron ::
  "bool \<Rightarrow> bool \<Rightarrow> nat \<Rightarrow> nat \<Rightarrow> mlpdouble \<Rightarrow> CLayer \<Rightarrow> CLayer" where
  "rescale_neuron cg csg nIn i c lay =
     (if cg then
        fold (\<lambda>j lay.
                if csg then
                  fold (\<lambda>k lay. Setd2YdX2 lay i j k (c * Getd2YdX2 lay i j k))
                       [0..<nIn] (SetdYdX lay i j (c * GetdYdX lay i j))
                else SetdYdX lay i j (c * GetdYdX lay i j))
             [0..<nIn] lay
      else lay)"

text \<open>
  The loop invariant of \<^verbatim>\<open>Predict\<close>: \<open>chain_rule_at\<close> is the chain rule for one neuron in
  terms of \<^verbatim>\<open>ComputeX\<close>, \<^verbatim>\<open>ComputePsi\<close> and \<^verbatim>\<open>ComputeChi\<close>; \<open>chain_rule_upto s L m\<close> says
  that it holds for the layers before \<open>L\<close> and the first \<open>m\<close> neurons of layer \<open>L\<close>;
  \<open>layers_ok\<close> is what the loops need of a sized network whose non-input layers have a tag
  among the enumerators.
\<close>

definition chain_rule_at :: "CNeuralNetwork \<Rightarrow> nat \<Rightarrow> nat \<Rightarrow> bool" where
  "chain_rule_at s l i \<longleftrightarrow>
     (let nIn = number_of_neurons (total_layers s ! 0);
          lay = total_layers s ! l;
          s1 = ActivationFunction s l (ComputeX s l i) in
      (compute_gradient s \<longrightarrow>
         (\<forall>j<nIn. GetdYdX lay i j = ComputePsi s l i j * Phi_prime s1)) \<and>
      (compute_gradient s \<and> compute_second_gradient s \<longrightarrow>
         (\<forall>j<nIn. \<forall>k<nIn.
            Getd2YdX2 lay i j k =
              Phi_dprime s1 * ComputePsi s l i j * ComputePsi s l i k
              + Phi_prime s1 * ComputeChi s l i j k)))"

definition chain_rule_upto :: "CNeuralNetwork \<Rightarrow> nat \<Rightarrow> nat \<Rightarrow> bool" where
  "chain_rule_upto s L m \<longleftrightarrow>
     (\<forall>l i. (1 \<le> l \<and> l < L \<and> i < number_of_neurons (total_layers s ! l))
            \<or> (l = L \<and> 1 \<le> L \<and> i < m) \<longrightarrow> chain_rule_at s l i)"

definition layers_ok :: "CNeuralNetwork \<Rightarrow> bool" where
  "layers_ok s \<longleftrightarrow>
     length (total_layers s) = n_hidden_layers s + 2 \<and>
     (\<forall>l. 1 \<le> l \<and> l < length (total_layers s) \<longrightarrow>
        \<not> is_input (total_layers s ! l) \<and>
        activation_function_types s ! l \<noteq> UNRECOGNIZED \<and>
        (\<forall>i<number_of_neurons (total_layers s ! l).
           row_ok (number_of_neurons (total_layers s ! 0)) i (total_layers s ! l)))"

section \<open>Properties of the activation function evaluator\<close>

text \<open>
  C5, as stated, fails: with both derivative modes enabled the ELU branch assigns
  \<open>exp input\<close> to the second derivative for an input that is not positive, which is not
  zero at the input \<open>-1\<close>.
\<close>

theorem ActivationFunction_ELU_second_derivative_nonzero:
  "Phi_dprime
     (ActivationFunction
        (example_net\<lparr>compute_gradient := True, compute_second_gradient := True,
                      activation_function_types := [NONE, ELU, RELU]\<rparr>) 1 (- 1)) \<noteq> 0"
  by (simp add: ActivationFunction_def example_net_def Let_def)

text \<open>
  C5, amended: for a RELU layer with second-derivative mode enabled the evaluator sets the
  second derivative to 0 at every input. For an ELU layer with both derivative modes
  enabled it sets the second derivative to 0 at every positive input and to \<open>exp input\<close> at
  every other input.
\<close>

theorem ActivationFunction_RELU_ELU_second_derivative:
  assumes "iLayer < length (activation_function_types net)"
  shows "(activation_function_types net ! iLayer = RELU \<longrightarrow> compute_second_gradient net \<longrightarrow>
            Phi_dprime (ActivationFunction net iLayer x) = 0)
       \<and> (activation_function_types net ! iLayer = ELU \<longrightarrow>
            compute_gradient net \<longrightarrow> compute_second_gradient net \<longrightarrow>
            Phi_dprime (ActivationFunction net iLayer x) = (if x > 0 then 0 else exp x))"
  by (simp add: ActivationFunction_def Let_def)

theorem ActivationFunction_RELU_ELU_second_derivative_witness:
  "Phi_dprime
     (ActivationFunction
        (example_net\<lparr>compute_gradient := True, compute_second_gradient := True,
                      activation_function_types := [NONE, ELU, RELU]\<rparr>) 2 (- 3)) = 0
   \<and> Phi_dprime
     (ActivationFunction
        (example_net\<lparr>compute_gradient := True, compute_second_gradient := True,
                      activation_function_types := [NONE, ELU, RELU]\<rparr>) 1 (- 1)) = exp (- 1)
   \<and> Phi_dprime
     (ActivationFunction
        (example_net\<lparr>compute_gradient := True, compute_second_gradient := True,
                      activation_function_types := [NONE, ELU, RELU]\<rparr>) 1 2) = 0"
  using
    ActivationFunction_RELU_ELU_second_derivative
      [of 2 "example_net\<lparr>compute_gradient := True, compute_second_gradient := True,
                          activation_function_types := [NONE, ELU, RELU]\<rparr>" "- 3"]
    ActivationFunction_RELU_ELU_second_derivative
      [of 1 "example_net\<lparr>compute_gradient := True, compute_second_gradient := True,
                          activation_function_types := [NONE, ELU, RELU]\<rparr>" "- 1"]
    ActivationFunction_RELU_ELU_second_derivative
      [of 1 "example_net\<lparr>compute_gradient := True, compute_second_gradient := True,
                          activation_function_types := [NONE, ELU, RELU]\<rparr>" 2]
  by (simp add: example_net_def)

text \<open>
  For the tag \<open>NONE\<close>, which is also the tag of a layer that was never assigned one, the
  evaluator sets the value to 0 at every input, the first derivative to 0 when
  first-derivative mode is enabled, and the second derivative to 0 when both derivative modes
  are enabled.
\<close>

lemma ActivationFunction_NONE_zero:
  assumes "activation_function_types net ! iLayer = NONE"
  shows "Phi (ActivationFunction net iLayer x) = 0"
    and "compute_gradient net \<Longrightarrow> Phi_prime (ActivationFunction net iLayer x) = 0"
    and "compute_gradient net \<Longrightarrow> compute_second_gradient net \<Longrightarrow>
           Phi_dprime (ActivationFunction net iLayer x) = 0"
  using assms by (simp_all add: ActivationFunction_def Let_def)

text \<open>
  C6: the code at a layer whose tag is none of the enumerators. In \<open>example_softmax\<close> layer 1
  was given the unknown name \<open>softmax\<close> and layer 2 the name \<open>exponential\<close>; both derivative
  modes are enabled. Evaluating layer 2 at the input 0 sets value, first and second
  derivative to 1. Evaluating layer 1 at the input 5 afterwards goes through the
  \<^verbatim>\<open>default:\<close> branch, which assigns nothing: value, first and second derivative are
  still 1, where the claim asks for 0, 0 and 0. The comment at the head of
  \<^verbatim>\<open>ActivationFunction\<close> says that an evaluation sets \<open>Phi\<close>, and the neighbouring
  \<open>NONE\<close> branch, taken here for layer 0 at the same input, does set the three members
  to 0.
\<close>

theorem ActivationFunction_default_branch_keeps_previous_values:
  "activation_function_names example_softmax = ['''', ''softmax'', ''exponential'']
   \<and> activation_function_types example_softmax = [NONE, UNRECOGNIZED, EXPONENTIAL]
   \<and> compute_gradient example_softmax \<and> compute_second_gradient example_softmax
   \<and> Phi (ActivationFunction example_softmax 2 0) = 1
   \<and> Phi_prime (ActivationFunction example_softmax 2 0) = 1
   \<and> Phi_dprime (ActivationFunction example_softmax 2 0) = 1
   \<and> Phi (ActivationFunction (ActivationFunction example_softmax 2 0) 1 5) = 1
   \<and> Phi_prime (ActivationFunction (ActivationFunction example_softmax 2 0) 1 5) = 1
   \<and> Phi_dprime (ActivationFunction (ActivationFunction example_softmax 2 0) 1 5) = 1
   \<and> Phi (ActivationFunction (ActivationFunction example_softmax 2 0) 0 5) = 0
   \<and> Phi_prime (ActivationFunction (ActivationFunction example_softmax 2 0) 0 5) = 0
   \<and> Phi_dprime (ActivationFunction (ActivationFunction example_softmax 2 0) 0 5) = 0"
  by (simp add: ActivationFunction_def example_softmax_def SetActivationFunction_def
        activation_function_map_def example_net_def Let_def)

section \<open>Properties of the normalization\<close>

text \<open>
  C7: when inputs and outputs use the same strategy and variable \<open>i\<close> has the same
  parameter pair on both sides, with a nonzero scale (maximum different from minimum for
  min-max, second parameter different from 0 for standardization and robust), then
  de-normalizing the normalized value gives the value back, for every strategy and every
  value, in exact arithmetic.
\<close>

theorem normalization_round_trip:
  assumes "i < length (input_norm net)" and "i < length (output_norm net)"
      and "input_reg_method net = output_reg_method net"
      and "input_norm net ! i = output_norm net ! i"
      and "output_reg_method net = MINMAX \<longrightarrow>
             snd (input_norm net ! i) \<noteq> fst (input_norm net ! i)"
      and "output_reg_method net \<noteq> MINMAX \<longrightarrow> snd (input_norm net ! i) \<noteq> 0"
  shows "DimensionalizeOutput net (NormalizeInput net x i) i = x"
  using assms
  by (cases "input_reg_method net") (simp_all add: DimensionalizeOutput_def NormalizeInput_def)

theorem normalization_round_trip_witness:
  "DimensionalizeOutput
     (example_net\<lparr>input_norm := [(2, 5), (0, 1)], output_norm := [(2, 5)]\<rparr>)
     (NormalizeInput
        (example_net\<lparr>input_norm := [(2, 5), (0, 1)], output_norm := [(2, 5)]\<rparr>) 4 0) 0 = 4
   \<and> NormalizeInput
        (example_net\<lparr>input_norm := [(2, 5), (0, 1)], output_norm := [(2, 5)]\<rparr>) 4 0 = 2 / 3
   \<and> DimensionalizeOutput
     (example_net\<lparr>input_norm := [(2, 5), (0, 1)], output_norm := [(2, 5)],
                   input_reg_method := STANDARD, output_reg_method := STANDARD\<rparr>)
     (NormalizeInput
        (example_net\<lparr>input_norm := [(2, 5), (0, 1)], output_norm := [(2, 5)],
                      input_reg_method := STANDARD, output_reg_method := STANDARD\<rparr>) 4 0) 0 = 4
   \<and> DimensionalizeOutput
     (example_net\<lparr>input_norm := [(2, 5), (0, 1)], output_norm := [(2, 5)],
                   input_reg_method := ROBUST, output_reg_method := ROBUST\<rparr>)
     (NormalizeInput
        (example_net\<lparr>input_norm := [(2, 5), (0, 1)], output_norm := [(2, 5)],
                      input_reg_method := ROBUST, output_reg_method := ROBUST\<rparr>) 4 0) 0 = 4"
  using
    normalization_round_trip
      [of 0 "example_net\<lparr>input_norm := [(2, 5), (0, 1)], output_norm := [(2, 5)]\<rparr>" 4]
    normalization_round_trip
      [of 0 "example_net\<lparr>input_norm := [(2, 5), (0, 1)], output_norm := [(2, 5)],
                          input_reg_method := STANDARD, output_reg_method := STANDARD\<rparr>" 4]
    normalization_round_trip
      [of 0 "example_net\<lparr>input_norm := [(2, 5), (0, 1)], output_norm := [(2, 5)],
                          input_reg_method := ROBUST, output_reg_method := ROBUST\<rparr>" 4]
  by (simp add: example_net_def NormalizeInput_def)

text \<open>
  C4: the code at a network whose inputs are standardized and whose outputs are min-max
  normalized with the output pair \<open>(1, 3)\<close>. The claim asks for the output scale
  \<open>3 - 1 = 2\<close> and for \<open>(3 - 1) * (1/2) + 1 = 2\<close> as de-normalized value of \<open>1/2\<close>; the code
  branches on the input strategy and gives the scale 3 and the value \<open>5/2\<close>.
\<close>

theorem output_scaling_follows_input_method:
  "output_reg_method
     (example_net\<lparr>output_norm := [(1, 3)], input_reg_method := STANDARD\<rparr>) = MINMAX
   \<and> GetRegularizationScale
       (example_net\<lparr>output_norm := [(1, 3)], input_reg_method := STANDARD\<rparr>) 0 False = 3
   \<and> DimensionalizeOutput
       (example_net\<lparr>output_norm := [(1, 3)], input_reg_method := STANDARD\<rparr>) (1 / 2) 0 = 5 / 2"
  by (simp add: example_net_def GetRegularizationScale_def DimensionalizeOutput_def)

section \<open>Properties of the activation assignment\<close>

text \<open>
  C8: the code at the call \<^verbatim>\<open>SetActivationFunction(1, "softmax")\<close> on the example
  network. The name \<open>softmax\<close> is not a key of the map. The claim asks for the name to be
  rejected with an error; the code compares the result of \<^verbatim>\<open>find\<close> with nothing, raises
  no error, records the name for the layer and stores as the layer's tag whatever the read
  through the past-the-end iterator delivers (\<open>t\<close> below). The lookup that the claim
  describes is the one the code performs: for the key \<open>tanh\<close> the layer gets the tag
  \<open>TANH\<close>, whatever lies behind the end of the map. What is missing is the comparison of
  the iterator with \<^verbatim>\<open>end()\<close>.
\<close>

theorem SetActivationFunction_unknown_name_not_rejected:
  "map_of activation_function_map ''softmax'' = None
   \<and> (\<forall>t. activation_function_names (SetActivationFunction t example_net 1 ''softmax'')
              = ['''', ''softmax'', ''linear'']
          \<and> activation_function_types (SetActivationFunction t example_net 1 ''softmax'')
              = [NONE, t, LINEAR]
          \<and> activation_function_types (SetActivationFunction t example_net 1 ''tanh'')
              = [NONE, TANH, LINEAR])"
  by (simp add: SetActivationFunction_def activation_function_map_def example_net_def)

section \<open>Properties of the variable matcher\<close>

lemma lookup_map_fold_dom:
  "n \<le> length names \<Longrightarrow>
   dom (fold (\<lambda>i m. m(names ! i \<mapsto> i)) [0..<n] m0) = dom m0 \<union> (\<lambda>i. names ! i) ` {..<n}"
  by (induction n) (auto simp: less_Suc_eq)

lemma dom_lookup_map: "dom (lookup_map names) = set names"
proof -
  have "(\<lambda>i. names ! i) ` {..<length names} = set names"
    by (auto simp: set_conv_nth)
  then show ?thesis
    by (simp add: lookup_map_def lookup_map_fold_dom)
qed

lemma match_inputs_loop_Inr:
  "\<forall>i\<in>set idxs. GetInputName net i \<in> dom m \<Longrightarrow>
   match_inputs_loop net m idxs r =
     Inr (r\<lparr>input_indices :=
              input_indices r @ map (\<lambda>i. (the (m (GetInputName net i)), i)) idxs\<rparr>)"
  by (induction idxs arbitrary: r) auto

lemma match_inputs_loop_Inl:
  "\<exists>i\<in>set idxs. GetInputName net i \<notin> dom m \<Longrightarrow>
   match_inputs_loop net m idxs r = Inl (r\<lparr>input_indices := []\<rparr>)"
proof (induction idxs arbitrary: r)
  case Nil
  then show ?case by simp
next
  case (Cons a idxs)
  show ?case
  proof (cases "m (GetInputName net a)")
    case None
    then show ?thesis by simp
  next
    case (Some k)
    with Cons.prems have "\<exists>i\<in>set idxs. GetInputName net i \<notin> dom m"
      by auto
    from Cons.IH[OF this] Some show ?thesis by simp
  qed
qed

lemma match_outputs_fold:
  "fold (\<lambda>i result.
           case m (GetOutputName net i) of
             None \<Rightarrow> result
           | Some k \<Rightarrow> result\<lparr>output_indices := output_indices result @ [(k, i)]\<rparr>) idxs r
   = r\<lparr>output_indices := output_indices r @
          map (\<lambda>i. (the (m (GetOutputName net i)), i))
            (filter (\<lambda>i. GetOutputName net i \<in> dom m) idxs)\<rparr>"
  by (induction idxs arbitrary: r) (auto split: option.splits)

lemma match_outputs_loop_eq:
  "match_outputs_loop net m r
   = r\<lparr>output_indices := output_indices r @
          map (\<lambda>i. (the (m (GetOutputName net i)), i))
            (filter (\<lambda>i. GetOutputName net i \<in> dom m) [0..<GetnOutputs net])\<rparr>"
  by (simp add: match_outputs_loop_def match_outputs_fold)

lemma inputs_present_iff:
  "(\<forall>i\<in>set [0..<GetnInputs net]. GetInputName net i \<in> dom (lookup_map li))
   \<longleftrightarrow> set (input_names net) \<subseteq> set li"
proof -
  have "set (input_names net) = (\<lambda>i. input_names net ! i) ` {..<length (input_names net)}"
    by (auto simp: in_set_conv_nth)
  then show ?thesis
    by (auto simp: dom_lookup_map GetnInputs_def GetInputName_def)
qed

lemma outputs_filter_empty_iff:
  "filter (\<lambda>i. GetOutputName net i \<in> dom (lookup_map lo)) [0..<GetnOutputs net] = []
   \<longleftrightarrow> set (output_names net) \<inter> set lo = {}"
proof -
  have "filter (\<lambda>i. GetOutputName net i \<in> dom (lookup_map lo)) [0..<GetnOutputs net] = []
        \<longleftrightarrow> (\<forall>i<length (output_names net). output_names net ! i \<notin> set lo)"
    by (auto simp: dom_lookup_map GetnOutputs_def GetOutputName_def filter_empty_conv)
  also have "\<dots> \<longleftrightarrow> (\<forall>x\<in>set (output_names net). x \<notin> set lo)"
    by (simp add: all_set_conv_all_nth)
  also have "\<dots> \<longleftrightarrow> set (output_names net) \<inter> set lo = {}"
    by blast
  finally show ?thesis .
qed

lemma distinct_subset_length:
  "distinct xs \<Longrightarrow> set xs \<subseteq> set ys \<Longrightarrow> length xs \<le> length ys"
  by (metis card_length card_mono distinct_card List.finite_set le_trans)

lemma GetVariableMapping_present:
  assumes "set (input_names net) \<subseteq> set li" and "length (input_names net) \<le> length li"
  shows "GetVariableMapping net li lo =
     \<lparr>is_match = (set (output_names net) \<inter> set lo \<noteq> {}),
      input_indices =
        map (\<lambda>i. (the (lookup_map li (GetInputName net i)), i)) [0..<GetnInputs net],
      output_indices =
        map (\<lambda>i. (the (lookup_map lo (GetOutputName net i)), i))
          (filter (\<lambda>i. GetOutputName net i \<in> dom (lookup_map lo)) [0..<GetnOutputs net])\<rparr>"
proof -
  have p: "\<forall>i\<in>set [0..<GetnInputs net]. GetInputName net i \<in> dom (lookup_map li)"
    unfolding inputs_present_iff by (rule assms(1))
  have l: "\<not> length li < GetnInputs net"
    using assms(2) by (simp add: GetnInputs_def)
  show ?thesis
    using l outputs_filter_empty_iff[of net lo]
    by (simp add: GetVariableMapping_def Let_def match_inputs_loop_Inr[OF p]
        match_outputs_loop_eq)
qed

lemma GetVariableMapping_absent:
  assumes "\<not> set (input_names net) \<subseteq> set li"
  shows "GetVariableMapping net li lo =
           \<lparr>is_match = False, input_indices = [], output_indices = []\<rparr>"
proof -
  have "\<not> (\<forall>i\<in>set [0..<GetnInputs net]. GetInputName net i \<in> dom (lookup_map li))"
    unfolding inputs_present_iff by (rule assms)
  then have p: "\<exists>i\<in>set [0..<GetnInputs net]. GetInputName net i \<notin> dom (lookup_map li)"
    by blast
  show ?thesis
    by (simp add: GetVariableMapping_def Let_def match_inputs_loop_Inl[OF p])
qed

lemma GetVariableMapping_short:
  assumes "length li < length (input_names net)"
  shows "GetVariableMapping net li lo =
           \<lparr>is_match = False, input_indices = [], output_indices = []\<rparr>"
  using assms by (simp add: GetVariableMapping_def Let_def GetnInputs_def)

text \<open>
  C2: for a network with pairwise distinct input names, the result is a match exactly when
  every input name of the network occurs in the lookup inputs and some output name of the
  network occurs in the lookup outputs; when the inputs are all found, the network side of
  the output-index list is the list of the output positions whose name occurs in the lookup
  outputs, in order, the others being left out. For network inputs \<open>u, v\<close> and outputs
  \<open>y, z\<close>: lookup inputs \<open>u, v, w\<close> with lookup outputs \<open>y\<close> give a match with the input pairs
  \<open>(0, 0), (1, 1)\<close> and the only output pair \<open>(0, 0)\<close>, and lookup inputs \<open>u\<close> alone give no
  match whatever the lookup outputs are.
\<close>

theorem GetVariableMapping_match_iff:
  assumes "distinct (input_names net)"
  shows "(is_match (GetVariableMapping net li lo) \<longleftrightarrow>
           set (input_names net) \<subseteq> set li \<and> set (output_names net) \<inter> set lo \<noteq> {})
       \<and> (set (input_names net) \<subseteq> set li \<longrightarrow>
           map snd (output_indices (GetVariableMapping net li lo)) =
           filter (\<lambda>i. output_names net ! i \<in> set lo) [0..<length (output_names net)])
       \<and> GetVariableMapping (example_net\<lparr>output_names := [''y'', ''z'']\<rparr>)
             [''u'', ''v'', ''w''] [''y'']
           = \<lparr>is_match = True, input_indices = [(0, 0), (1, 1)], output_indices = [(0, 0)]\<rparr>
       \<and> (\<forall>lookup_outputs.
             \<not> is_match (GetVariableMapping (example_net\<lparr>output_names := [''y'', ''z'']\<rparr>)
                           [''u''] lookup_outputs))"
proof -
  have general:
    "(is_match (GetVariableMapping net li lo) \<longleftrightarrow>
           set (input_names net) \<subseteq> set li \<and> set (output_names net) \<inter> set lo \<noteq> {})
       \<and> (set (input_names net) \<subseteq> set li \<longrightarrow>
           map snd (output_indices (GetVariableMapping net li lo)) =
           filter (\<lambda>i. output_names net ! i \<in> set lo) [0..<length (output_names net)])"
  proof (cases "set (input_names net) \<subseteq> set li")
    case True
    then have "length (input_names net) \<le> length li"
      using assms by (rule distinct_subset_length[rotated])
    with True show ?thesis
      by (simp add: GetVariableMapping_present comp_def dom_lookup_map GetOutputName_def
          GetnOutputs_def)
  next
    case False
    then show ?thesis by (simp add: GetVariableMapping_absent)
  qed
  have first:
    "GetVariableMapping (example_net\<lparr>output_names := [''y'', ''z'']\<rparr>)
       [''u'', ''v'', ''w''] [''y'']
     = \<lparr>is_match = True, input_indices = [(0, 0), (1, 1)], output_indices = [(0, 0)]\<rparr>"
    by (simp add: GetVariableMapping_def example_net_def lookup_map_def GetnInputs_def
        GetnOutputs_def GetInputName_def GetOutputName_def match_outputs_loop_def upt_rec
        Let_def)
  have second:
    "\<forall>lookup_outputs.
       \<not> is_match (GetVariableMapping (example_net\<lparr>output_names := [''y'', ''z'']\<rparr>)
                     [''u''] lookup_outputs)"
    by (simp add: GetVariableMapping_def example_net_def GetnInputs_def)
  from general first second show ?thesis by blast
qed

theorem GetVariableMapping_match_iff_witness:
  "distinct (input_names (example_net\<lparr>output_names := [''y'', ''z'']\<rparr>))
   \<and> is_match (GetVariableMapping (example_net\<lparr>output_names := [''y'', ''z'']\<rparr>)
                 [''v'', ''w'', ''u''] [''z'', ''x''])
   \<and> map snd (output_indices
        (GetVariableMapping (example_net\<lparr>output_names := [''y'', ''z'']\<rparr>)
           [''v'', ''w'', ''u''] [''z'', ''x''])) = [1]"
  using GetVariableMapping_match_iff
    [of "example_net\<lparr>output_names := [''y'', ''z'']\<rparr>" "[''v'', ''w'', ''u'']" "[''z'', ''x'']"]
  by (simp add: example_net_def upt_rec)

text \<open>
  C3: the code at network inputs \<open>u, v\<close>, network output \<open>y\<close>, lookup inputs \<open>u, v\<close> and
  lookup outputs \<open>z\<close>. No output matches, so the result is no match; the input pairs built
  before are still in it.
\<close>

theorem GetVariableMapping_nonmatch_keeps_input_pairs:
  "GetVariableMapping example_net [''u'', ''v''] [''z'']
   = \<lparr>is_match = False, input_indices = [(0, 0), (1, 1)], output_indices = []\<rparr>"
  by (simp add: GetVariableMapping_def example_net_def lookup_map_def GetnInputs_def
      GetnOutputs_def GetInputName_def GetOutputName_def match_outputs_loop_def upt_rec
      Let_def)

text \<open>
  C9: whenever the result is a match, the network side of the input-index list is
  \<open>0, 1, \<dots>, n - 1\<close> for the \<open>n\<close> inputs of the network, so every network input index occurs
  in exactly one pair, and the output-index list is not empty.
\<close>

theorem GetVariableMapping_match_coverage:
  assumes "is_match (GetVariableMapping net li lo)"
  shows "map snd (input_indices (GetVariableMapping net li lo)) = [0..<GetnInputs net]
       \<and> (\<forall>i<GetnInputs net.
            length (filter (\<lambda>p. snd p = i) (input_indices (GetVariableMapping net li lo))) = 1)
       \<and> output_indices (GetVariableMapping net li lo) \<noteq> []"
proof -
  have sub: "set (input_names net) \<subseteq> set li"
    using assms by (rule contrapos_pp) (simp add: GetVariableMapping_absent)
  have len: "length (input_names net) \<le> length li"
    using assms by (rule contrapos_pp) (simp add: GetVariableMapping_short)
  note eq = GetVariableMapping_present[OF sub len, of lo]
  have m: "map snd (input_indices (GetVariableMapping net li lo)) = [0..<GetnInputs net]"
    by (simp add: eq comp_def)
  have o: "output_indices (GetVariableMapping net li lo) \<noteq> []"
    using assms outputs_filter_empty_iff[of net lo] by (simp add: eq)
  have c: "length (filter (\<lambda>p. snd p = i) (input_indices (GetVariableMapping net li lo))) = 1"
    if "i < GetnInputs net" for i
  proof -
    have "length (filter (\<lambda>p. snd p = i) (input_indices (GetVariableMapping net li lo)))
        = length (filter (\<lambda>k. k = i) (map snd (input_indices (GetVariableMapping net li lo))))"
      by (simp add: filter_map comp_def)
    also have "\<dots> = length (filter (\<lambda>k. k = i) [0..<GetnInputs net])"
      by (simp only: m)
    also have "\<dots> = 1"
      using that distinct_length_filter[of "[0..<GetnInputs net]" "\<lambda>k. k = i"]
      by (simp add: Collect_conv_if Int_def)
    finally show ?thesis .
  qed
  from m c o show ?thesis by blast
qed

theorem GetVariableMapping_match_coverage_witness:
  "is_match (GetVariableMapping example_net [''v'', ''w'', ''u''] [''y''])
   \<and> map snd (input_indices (GetVariableMapping example_net [''v'', ''w'', ''u''] [''y'']))
       = [0, 1]
   \<and> output_indices (GetVariableMapping example_net [''v'', ''w'', ''u''] [''y'']) \<noteq> []"
proof -
  have h: "is_match (GetVariableMapping example_net [''v'', ''w'', ''u''] [''y''])"
    by (simp add: GetVariableMapping_def example_net_def lookup_map_def GetnInputs_def
        GetnOutputs_def GetInputName_def GetOutputName_def match_outputs_loop_def upt_rec
        Let_def)
  have n: "[0..<GetnInputs example_net] = [0, 1]"
    by (simp add: GetnInputs_def example_net_def upt_rec)
  show ?thesis
    using h GetVariableMapping_match_coverage[OF h] by (simp add: n)
qed

section \<open>Writes to the buffers of one layer\<close>

lemma map_list_update_same:
  "g y = g (xs ! i) \<Longrightarrow> map g (xs[i := y]) = map g xs"
  by (induction xs arbitrary: i) (auto split: nat.splits)

lemma layer_static_SetOutput [simp]: "layer_static (SetOutput lay i v) = layer_static lay"
  by (simp add: layer_static_def SetOutput_def)

lemma layer_static_SetdYdX [simp]: "layer_static (SetdYdX lay i j v) = layer_static lay"
  by (simp add: layer_static_def SetdYdX_def map_list_update_same)

lemma layer_static_Setd2YdX2 [simp]: "layer_static (Setd2YdX2 lay i j k v) = layer_static lay"
  by (simp add: layer_static_def Setd2YdX2_def map_list_update_same)

lemma row_ok_static: "layer_static lay' = layer_static lay \<Longrightarrow> row_ok nIn i lay' = row_ok nIn i lay"
proof -
  assume a: "layer_static lay' = layer_static lay"
  then have l1: "map length (dy_dx lay') = map length (dy_dx lay)"
    and l2: "map (map length) (d2y_dx2 lay') = map (map length) (d2y_dx2 lay)"
    by (simp_all add: layer_static_def)
  have e1: "length (dy_dx lay') = length (dy_dx lay)"
    using l1 by (rule map_eq_imp_length_eq)
  have e2: "length (d2y_dx2 lay') = length (d2y_dx2 lay)"
    using l2 by (rule map_eq_imp_length_eq)
  have r1: "length (dy_dx lay' ! i) = length (dy_dx lay ! i)" if "i < length (dy_dx lay)"
    using that l1 e1 by (metis nth_map)
  have r2: "map length (d2y_dx2 lay' ! i) = map length (d2y_dx2 lay ! i)" if "i < length (d2y_dx2 lay)"
    using that l2 e2 by (metis nth_map)
  have r3: "length (d2y_dx2 lay' ! i) = length (d2y_dx2 lay ! i)" if "i < length (d2y_dx2 lay)"
    using r2[OF that] by (rule map_eq_imp_length_eq)
  have r4: "length (d2y_dx2 lay' ! i ! j) = length (d2y_dx2 lay ! i ! j)"
    if "i < length (d2y_dx2 lay)" "j < length (d2y_dx2 lay ! i)" for j
    using that r2[OF that(1)] r3[OF that(1)] by (metis nth_map)
  show ?thesis
    unfolding row_ok_def using e1 e2 r1 r3 r4 by auto
qed

lemma row_ok_setters [simp]:
  "row_ok nIn i (SetOutput lay a v) = row_ok nIn i lay"
  "row_ok nIn i (SetdYdX lay a b v) = row_ok nIn i lay"
  "row_ok nIn i (Setd2YdX2 lay a b c v) = row_ok nIn i lay"
  by (rule row_ok_static, simp)+

lemma GetdYdX_SetdYdX:
  "i < length (dy_dx lay) \<Longrightarrow> j < length (dy_dx lay ! i) \<Longrightarrow>
   GetdYdX (SetdYdX lay i j v) i' j' = (if i' = i \<and> j' = j then v else GetdYdX lay i' j')"
  by (auto simp: GetdYdX_def SetdYdX_def nth_list_update)

lemma Getd2YdX2_Setd2YdX2:
  "i < length (d2y_dx2 lay) \<Longrightarrow> j < length (d2y_dx2 lay ! i) \<Longrightarrow> k < length (d2y_dx2 lay ! i ! j) \<Longrightarrow>
   Getd2YdX2 (Setd2YdX2 lay i j k v) i' j' k' =
     (if i' = i \<and> j' = j \<and> k' = k then v else Getd2YdX2 lay i' j' k')"
  by (auto simp: Getd2YdX2_def Setd2YdX2_def nth_list_update)

lemma GetdYdX_other [simp]:
  "GetdYdX (SetOutput lay i v) i' j' = GetdYdX lay i' j'"
  "GetdYdX (Setd2YdX2 lay i j k v) i' j' = GetdYdX lay i' j'"
  by (simp_all add: GetdYdX_def SetOutput_def Setd2YdX2_def)

lemma Getd2YdX2_other [simp]:
  "Getd2YdX2 (SetOutput lay i v) i' j' k' = Getd2YdX2 lay i' j' k'"
  "Getd2YdX2 (SetdYdX lay i j v) i' j' k' = Getd2YdX2 lay i' j' k'"
  by (simp_all add: Getd2YdX2_def SetOutput_def SetdYdX_def)

lemma GetOutput_other [simp]:
  "GetOutput (SetdYdX lay i j v) i' = GetOutput lay i'"
  "GetOutput (Setd2YdX2 lay i j k v) i' = GetOutput lay i'"
  by (simp_all add: GetOutput_def SetdYdX_def Setd2YdX2_def)

lemma GetOutput_SetOutput_neq: "i' \<noteq> i \<Longrightarrow> GetOutput (SetOutput lay i v) i' = GetOutput lay i'"
  by (simp add: GetOutput_def SetOutput_def)

lemma k_loop_static:
  "layer_static (fold (\<lambda>k lay. Setd2YdX2 lay i j k (g k)) ks lay) = layer_static lay"
  by (induction ks arbitrary: lay) simp_all

lemma k_loop_first [simp]:
  "GetdYdX (fold (\<lambda>k lay. Setd2YdX2 lay i j k (g k)) ks lay) i' j' = GetdYdX lay i' j'"
  "GetOutput (fold (\<lambda>k lay. Setd2YdX2 lay i j k (g k)) ks lay) i' = GetOutput lay i'"
  by (induction ks arbitrary: lay) simp_all

lemma k_loop_second:
  assumes "row_ok nIn i lay" "j < nIn" "\<forall>k\<in>set ks. k < nIn"
  shows "Getd2YdX2 (fold (\<lambda>k lay. Setd2YdX2 lay i j k (g k)) ks lay) i' j' k' =
           (if i' = i \<and> j' = j \<and> k' \<in> set ks then g k' else Getd2YdX2 lay i' j' k')"
  using assms
proof (induction ks arbitrary: lay)
  case Nil
  then show ?case by simp
next
  case (Cons k ks)
  have ok: "row_ok nIn i (Setd2YdX2 lay i j k (g k))"
    using Cons.prems(1) by simp
  have k: "k < nIn" using Cons.prems(3) by simp
  have g: "Getd2YdX2 (Setd2YdX2 lay i j k (g k)) i' j' k' =
     (if i' = i \<and> j' = j \<and> k' = k then g k else Getd2YdX2 lay i' j' k')"
    using Cons.prems(1,2) k by (intro Getd2YdX2_Setd2YdX2) (auto simp: row_ok_def)
  have ks: "\<forall>k\<in>set ks. k < nIn" using Cons.prems(3) by simp
  have step: "fold (\<lambda>k lay. Setd2YdX2 lay i j k (g k)) (k # ks) lay
            = fold (\<lambda>k lay. Setd2YdX2 lay i j k (g k)) ks (Setd2YdX2 lay i j k (g k))"
    by simp
  show ?case
    unfolding step Cons.IH[OF ok Cons.prems(2) ks] g by auto
qed

lemma j_loop_static:
  "layer_static
     (fold (\<lambda>j lay.
              if csg then fold (\<lambda>k lay. Setd2YdX2 lay i j k (g j k)) ks (SetdYdX lay i j (f j))
              else SetdYdX lay i j (f j))
           js lay) = layer_static lay"
  by (induction js arbitrary: lay) (simp_all add: Let_def k_loop_static)

lemma j_loop_first:
  assumes "row_ok nIn i lay" "\<forall>j\<in>set js. j < nIn"
  shows "GetdYdX
     (fold (\<lambda>j lay.
              if csg then fold (\<lambda>k lay. Setd2YdX2 lay i j k (g j k)) ks (SetdYdX lay i j (f j))
              else SetdYdX lay i j (f j))
           js lay) i' j' =
     (if i' = i \<and> j' \<in> set js then f j' else GetdYdX lay i' j')"
  using assms
proof (induction js arbitrary: lay)
  case Nil
  then show ?case by simp
next
  case (Cons j js)
  define lay2 where
    "lay2 = (if csg then fold (\<lambda>k lay. Setd2YdX2 lay i j k (g j k)) ks (SetdYdX lay i j (f j))
             else SetdYdX lay i j (f j))"
  have st: "layer_static lay2 = layer_static lay"
    by (simp add: lay2_def k_loop_static)
  have ok: "row_ok nIn i lay2"
    using Cons.prems(1) row_ok_static[OF st] by simp
  have j: "j < nIn" using Cons.prems(2) by simp
  have g1: "GetdYdX (SetdYdX lay i j (f j)) i' j' =
              (if i' = i \<and> j' = j then f j else GetdYdX lay i' j')"
    using Cons.prems(1) j by (intro GetdYdX_SetdYdX) (auto simp: row_ok_def)
  have g2: "GetdYdX lay2 i' j' = (if i' = i \<and> j' = j then f j else GetdYdX lay i' j')"
    by (cases csg) (simp_all add: lay2_def g1)
  have js: "\<forall>j\<in>set js. j < nIn" using Cons.prems(2) by simp
  have step: "fold (\<lambda>j lay.
              if csg then fold (\<lambda>k lay. Setd2YdX2 lay i j k (g j k)) ks (SetdYdX lay i j (f j))
              else SetdYdX lay i j (f j)) (j # js) lay
            = fold (\<lambda>j lay.
              if csg then fold (\<lambda>k lay. Setd2YdX2 lay i j k (g j k)) ks (SetdYdX lay i j (f j))
              else SetdYdX lay i j (f j)) js lay2"
    by (simp add: lay2_def)
  show ?case
    unfolding step Cons.IH[OF ok js] g2 by auto
qed

lemma j_loop_second:
  assumes "row_ok nIn i lay" "\<forall>j\<in>set js. j < nIn" "\<forall>k\<in>set ks. k < nIn"
  shows "Getd2YdX2
     (fold (\<lambda>j lay.
              if csg then fold (\<lambda>k lay. Setd2YdX2 lay i j k (g j k)) ks (SetdYdX lay i j (f j))
              else SetdYdX lay i j (f j))
           js lay) i' j' k' =
     (if csg \<and> i' = i \<and> j' \<in> set js \<and> k' \<in> set ks then g j' k' else Getd2YdX2 lay i' j' k')"
  using assms
proof (induction js arbitrary: lay)
  case Nil
  then show ?case by simp
next
  case (Cons j js)
  define lay2 where
    "lay2 = (if csg then fold (\<lambda>k lay. Setd2YdX2 lay i j k (g j k)) ks (SetdYdX lay i j (f j))
             else SetdYdX lay i j (f j))"
  have st: "layer_static lay2 = layer_static lay"
    by (simp add: lay2_def k_loop_static)
  have ok1: "row_ok nIn i (SetdYdX lay i j (f j))"
    using Cons.prems(1) by simp
  have ok: "row_ok nIn i lay2"
    using Cons.prems(1) row_ok_static[OF st] by simp
  have j: "j < nIn" using Cons.prems(2) by simp
  have g2: "Getd2YdX2 lay2 i' j' k' =
      (if csg \<and> i' = i \<and> j' = j \<and> k' \<in> set ks then g j k' else Getd2YdX2 lay i' j' k')"
    using k_loop_second[OF ok1 j Cons.prems(3), of "g j" i' j' k']
    by (cases csg) (simp_all add: lay2_def)
  have js: "\<forall>j\<in>set js. j < nIn" using Cons.prems(2) by simp
  have step: "fold (\<lambda>j lay.
              if csg then fold (\<lambda>k lay. Setd2YdX2 lay i j k (g j k)) ks (SetdYdX lay i j (f j))
              else SetdYdX lay i j (f j)) (j # js) lay
            = fold (\<lambda>j lay.
              if csg then fold (\<lambda>k lay. Setd2YdX2 lay i j k (g j k)) ks (SetdYdX lay i j (f j))
              else SetdYdX lay i j (f j)) js lay2"
    by (simp add: lay2_def)
  show ?case
    unfolding step Cons.IH[OF ok js Cons.prems(3)] g2 by auto
qed

lemma neuron_update_static:
  "layer_static (neuron_update cg csg nIn i y p1 p2 psi chi lay) = layer_static lay"
  by (simp add: neuron_update_def j_loop_static)

lemma neuron_update_first:
  assumes "row_ok nIn i lay"
  shows "GetdYdX (neuron_update cg csg nIn i y p1 p2 psi chi lay) i' j' =
           (if cg \<and> i' = i \<and> j' < nIn then psi j' * p1 else GetdYdX lay i' j')"
proof (cases cg)
  case True
  have ok: "row_ok nIn i (SetOutput lay i y)"
    using assms by simp
  have r: "\<forall>j\<in>set [0..<nIn]. j < nIn"
    by simp
  note e = j_loop_first[OF ok r, where f = "\<lambda>j. psi j * p1" and csg = csg
        and g = "\<lambda>j k. p2 * psi j * psi k + p1 * chi j k" and ks = "[0..<nIn]"]
  show ?thesis
    unfolding neuron_update_def if_P[OF True] e using True by simp
next
  case False
  show ?thesis
    unfolding neuron_update_def if_not_P[OF False] using False by simp
qed

lemma neuron_update_second:
  assumes "row_ok nIn i lay"
  shows "Getd2YdX2 (neuron_update cg csg nIn i y p1 p2 psi chi lay) i' j' k' =
           (if cg \<and> csg \<and> i' = i \<and> j' < nIn \<and> k' < nIn
            then p2 * psi j' * psi k' + p1 * chi j' k' else Getd2YdX2 lay i' j' k')"
proof (cases cg)
  case True
  have ok: "row_ok nIn i (SetOutput lay i y)"
    using assms by simp
  have r: "\<forall>j\<in>set [0..<nIn]. j < nIn"
    by simp
  note e = j_loop_second[OF ok r r, where f = "\<lambda>j. psi j * p1" and csg = csg
        and g = "\<lambda>j k. p2 * psi j * psi k + p1 * chi j k"]
  show ?thesis
    unfolding neuron_update_def if_P[OF True] e using True by simp
next
  case False
  show ?thesis
    unfolding neuron_update_def if_not_P[OF False] using False by simp
qed

section \<open>What an evaluation leaves unchanged\<close>

lemma update_layer_fields [simp]:
  "compute_gradient (update_layer l f s) = compute_gradient s"
  "compute_second_gradient (update_layer l f s) = compute_second_gradient s"
  "weights_mat (update_layer l f s) = weights_mat s"
  "Phi (update_layer l f s) = Phi s"
  "Phi_prime (update_layer l f s) = Phi_prime s"
  "Phi_dprime (update_layer l f s) = Phi_dprime s"
  "activation_function_types (update_layer l f s) = activation_function_types s"
  "total_layers (update_layer l f s) = (total_layers s)[l := f (total_layers s ! l)]"
  by (simp_all add: update_layer_def)

lemma static_update_layer:
  "layer_static (f (total_layers s ! l)) = layer_static (total_layers s ! l) \<Longrightarrow>
   static (update_layer l f s) = static s"
  by (simp add: static_def update_layer_def map_list_update_same)

lemma ActivationFunction_frame:
  "ActivationFunction s l x =
     s\<lparr>Phi := Phi (ActivationFunction s l x),
       Phi_prime := Phi_prime (ActivationFunction s l x),
       Phi_dprime := Phi_dprime (ActivationFunction s l x)\<rparr>"
  by (cases "activation_function_types s ! l") (simp_all add: ActivationFunction_def Let_def)

lemma ActivationFunction_fields [simp]:
  "compute_gradient (ActivationFunction s l x) = compute_gradient s"
  "compute_second_gradient (ActivationFunction s l x) = compute_second_gradient s"
  "weights_mat (ActivationFunction s l x) = weights_mat s"
  "activation_function_types (ActivationFunction s l x) = activation_function_types s"
  "total_layers (ActivationFunction s l x) = total_layers s"
  "static (ActivationFunction s l x) = static s"
  by (subst ActivationFunction_frame, simp add: static_def)+

lemma static_fold:
  "(\<And>x s. static (f x s) = static s) \<Longrightarrow> static (fold f xs s) = static s"
  by (induction xs arbitrary: s) simp_all

lemma static_ComputeInputLayer: "static (ComputeInputLayer s inputs i) = static s"
  by (simp add: ComputeInputLayer_def ComputeInputLayer_jInput_def ComputeInputLayer_kInput_def
      Let_def static_fold static_update_layer)

lemma static_Predict_jInput: "static (Predict_jInput l i j s) = static s"
  by (simp add: Predict_jInput_def Predict_kInput_def Let_def static_fold static_update_layer)

lemma static_Predict_iNeuron: "static (Predict_iNeuron inputs l i s) = static s"
  by (simp add: Predict_iNeuron_def Let_def static_fold static_update_layer
      static_ComputeInputLayer static_Predict_jInput)

lemma static_Predict_iLayer: "static (Predict_iLayer inputs l s) = static s"
  by (simp add: Predict_iLayer_def static_fold static_Predict_iNeuron)

lemma static_Predict_layers: "static (Predict_layers s inputs) = static s"
  by (simp add: Predict_layers_def static_fold static_Predict_iLayer)

section \<open>One neuron of a non-input layer\<close>

lemma fold_put:
  "(\<And>x lay. F x (put lay) = put (G x lay)) \<Longrightarrow> fold F xs (put lay) = put (fold G xs lay)"
  by (induction xs arbitrary: lay) simp_all

lemma Predict_iNeuron_lift:
  assumes L: "1 \<le> L" "L < length (total_layers s)" and ni: "\<not> is_input (total_layers s ! L)"
  shows "Predict_iNeuron inputs L i s =
     (ActivationFunction s L (ComputeX s L i))\<lparr>total_layers := (total_layers s)[L :=
        neuron_update (compute_gradient s) (compute_second_gradient s)
          (number_of_neurons (total_layers s ! 0)) i
          (Phi (ActivationFunction s L (ComputeX s L i)))
          (Phi_prime (ActivationFunction s L (ComputeX s L i)))
          (Phi_dprime (ActivationFunction s L (ComputeX s L i)))
          (ComputePsi s L i) (ComputeChi s L i) (total_layers s ! L)]\<rparr>"
proof -
  define s1 where "s1 = ActivationFunction s L (ComputeX s L i)"
  define put where "put = (\<lambda>lay. s1\<lparr>total_layers := (total_layers s)[L := lay]\<rparr>)"
  define nIn where "nIn = number_of_neurons (total_layers s ! 0)"
  have pf [simp]:
    "compute_gradient (put lay) = compute_gradient s"
    "compute_second_gradient (put lay) = compute_second_gradient s"
    "weights_mat (put lay) = weights_mat s"
    "Phi_prime (put lay) = Phi_prime s1"
    "Phi_dprime (put lay) = Phi_dprime s1"
    "total_layers (put lay) = (total_layers s)[L := lay]" for lay
    by (simp_all add: put_def s1_def)
  have upd: "update_layer L f (put lay) = put (f lay)" for f lay
    using L by (simp add: put_def update_layer_def)
  have psi: "ComputePsi (put lay) L i j = ComputePsi s L i j" for lay j
    using L by (simp add: ComputePsi_def)
  have chi: "ComputeChi (put lay) L i j k = ComputeChi s L i j k" for lay j k
    using L by (simp add: ComputeChi_def)
  have nin: "CLayer_GetNNeurons (inputLayer (put lay)) = nIn" for lay
    using L by (simp add: CLayer_GetNNeurons_def inputLayer_def inputLayer_index_def nIn_def)
  have kb: "Predict_kInput L i j pj k (put lay)
          = put (Setd2YdX2 lay i j k
                   (Phi_dprime s1 * pj * ComputePsi s L i k + Phi_prime s1 * ComputeChi s L i j k))"
    for j pj k lay
    by (simp add: Predict_kInput_def Let_def upd psi chi)
  have kl: "fold (Predict_kInput L i j pj) ks (put lay)
          = put (fold (\<lambda>k lay. Setd2YdX2 lay i j k
                   (Phi_dprime s1 * pj * ComputePsi s L i k + Phi_prime s1 * ComputeChi s L i j k))
                  ks lay)" for j pj ks lay
    by (rule fold_put[where put = put]) (rule kb)
  have jb: "Predict_jInput L i j (put lay)
          = put (if compute_second_gradient s then
                   fold (\<lambda>k lay. Setd2YdX2 lay i j k
                      (Phi_dprime s1 * ComputePsi s L i j * ComputePsi s L i k
                       + Phi_prime s1 * ComputeChi s L i j k))
                     [0..<nIn] (SetdYdX lay i j (ComputePsi s L i j * Phi_prime s1))
                 else SetdYdX lay i j (ComputePsi s L i j * Phi_prime s1))" for j lay
    by (simp add: Predict_jInput_def Let_def upd psi nin kl)
  have jl: "fold (Predict_jInput L i) js (put lay)
          = put (fold (\<lambda>j lay. if compute_second_gradient s then
                   fold (\<lambda>k lay. Setd2YdX2 lay i j k
                      (Phi_dprime s1 * ComputePsi s L i j * ComputePsi s L i k
                       + Phi_prime s1 * ComputeChi s L i j k))
                     [0..<nIn] (SetdYdX lay i j (ComputePsi s L i j * Phi_prime s1))
                 else SetdYdX lay i j (ComputePsi s L i j * Phi_prime s1)) js lay)" for js lay
    by (rule fold_put[where put = put]) (rule jb)
  have start: "update_layer L (\<lambda>l. SetOutput l i (Phi s1)) s1
             = put (SetOutput (total_layers s ! L) i (Phi s1))"
    by (simp add: put_def update_layer_def s1_def)
  have "Predict_iNeuron inputs L i s =
          put (neuron_update (compute_gradient s) (compute_second_gradient s)
                 nIn i (Phi s1) (Phi_prime s1) (Phi_dprime s1)
                 (ComputePsi s L i) (ComputeChi s L i) (total_layers s ! L))"
    using ni
    by (simp add: Predict_iNeuron_def IsInput_def Let_def s1_def[symmetric] start nin jl
        neuron_update_def)
  then show ?thesis
    by (simp add: put_def s1_def nIn_def)
qed

lemma static_facts:
  assumes "static s' = static s"
  shows "n_hidden_layers s' = n_hidden_layers s"
    and "weights_mat s' = weights_mat s"
    and "compute_gradient s' = compute_gradient s"
    and "compute_second_gradient s' = compute_second_gradient s"
    and "activation_function_types s' = activation_function_types s"
    and "length (total_layers s') = length (total_layers s)"
    and "l < length (total_layers s) \<Longrightarrow>
           layer_static (total_layers s' ! l) = layer_static (total_layers s ! l)"
proof -
  have m: "map layer_static (total_layers s') = map layer_static (total_layers s)"
    using assms by (simp add: static_def)
  show len: "length (total_layers s') = length (total_layers s)"
    using m by (rule map_eq_imp_length_eq)
  show "l < length (total_layers s) \<Longrightarrow>
           layer_static (total_layers s' ! l) = layer_static (total_layers s ! l)"
    using m len by (metis nth_map)
qed (use assms in \<open>simp_all add: static_def\<close>)

lemma layer_static_facts:
  assumes "layer_static lay' = layer_static lay"
  shows "number_of_neurons lay' = number_of_neurons lay"
    and "is_input lay' = is_input lay"
    and "bias lay' = bias lay"
  using assms by (simp_all add: layer_static_def)

lemma layers_ok_static:
  assumes "static s' = static s"
  shows "layers_ok s' = layers_ok s"
proof -
  note f = static_facts[OF assms]
  have n: "number_of_neurons (total_layers s' ! l) = number_of_neurons (total_layers s ! l)"
    if "l < length (total_layers s)" for l
    using f(7)[OF that] by (rule layer_static_facts)
  have i: "is_input (total_layers s' ! l) = is_input (total_layers s ! l)"
    if "l < length (total_layers s)" for l
    using f(7)[OF that] by (rule layer_static_facts)
  have r: "row_ok a b (total_layers s' ! l) = row_ok a b (total_layers s ! l)"
    if "l < length (total_layers s)" for l a b
    using f(7)[OF that] by (rule row_ok_static)
  show ?thesis
  proof (cases "length (total_layers s) = n_hidden_layers s + 2")
    case True
    then have z: "0 < length (total_layers s)" by simp
    show ?thesis
      unfolding layers_ok_def f(1,5,6) using n i r n[OF z]
      by (auto simp: True)
  next
    case False
    then show ?thesis
      by (simp add: layers_ok_def f(1,6))
  qed
qed

lemma ActivationFunction_indep:
  assumes "activation_function_types s' ! l = activation_function_types s ! l"
      and "compute_gradient s' = compute_gradient s"
      and "compute_second_gradient s' = compute_second_gradient s"
      and "activation_function_types s ! l \<noteq> UNRECOGNIZED"
      and "compute_gradient s"
  shows "Phi_prime (ActivationFunction s' l x) = Phi_prime (ActivationFunction s l x)"
    and "compute_second_gradient s \<Longrightarrow>
         Phi_dprime (ActivationFunction s' l x) = Phi_dprime (ActivationFunction s l x)"
  using assms
  by (cases "activation_function_types s ! l"; simp add: ActivationFunction_def Let_def)+

lemma ComputePsi_cong:
  "weights_mat s' = weights_mat s \<Longrightarrow> total_layers s' ! (l - 1) = total_layers s ! (l - 1) \<Longrightarrow>
   ComputePsi s' l i j = ComputePsi s l i j"
  by (simp add: ComputePsi_def)

lemma ComputeChi_cong:
  "weights_mat s' = weights_mat s \<Longrightarrow> total_layers s' ! (l - 1) = total_layers s ! (l - 1) \<Longrightarrow>
   ComputeChi s' l i j k = ComputeChi s l i j k"
  by (simp add: ComputeChi_def)

lemma ComputeX_cong:
  "weights_mat s' = weights_mat s \<Longrightarrow> total_layers s' ! (l - 1) = total_layers s ! (l - 1) \<Longrightarrow>
   bias (total_layers s' ! l) = bias (total_layers s ! l) \<Longrightarrow>
   ComputeX s' l i = ComputeX s l i"
  by (simp add: ComputeX_def GetBias_def)

lemma chain_rule_at_cong:
  assumes st: "static s' = static s"
      and l: "1 \<le> l" "l < length (total_layers s)"
      and prev: "total_layers s' ! (l - 1) = total_layers s ! (l - 1)"
      and d1: "\<And>j. GetdYdX (total_layers s' ! l) i j = GetdYdX (total_layers s ! l) i j"
      and d2: "\<And>j k. Getd2YdX2 (total_layers s' ! l) i j k = Getd2YdX2 (total_layers s ! l) i j k"
      and tag: "activation_function_types s ! l \<noteq> UNRECOGNIZED"
  shows "chain_rule_at s' l i = chain_rule_at s l i"
proof -
  note f = static_facts[OF st]
  have z: "0 < length (total_layers s)" using l by linarith
  have n0: "number_of_neurons (total_layers s' ! 0) = number_of_neurons (total_layers s ! 0)"
    using f(7)[OF z] by (rule layer_static_facts)
  have b: "bias (total_layers s' ! l) = bias (total_layers s ! l)"
    using f(7)[OF l(2)] by (rule layer_static_facts)
  have x: "ComputeX s' l i = ComputeX s l i"
    using f(2) prev b by (rule ComputeX_cong)
  have psi: "ComputePsi s' l i j = ComputePsi s l i j" for j
    using f(2) prev by (rule ComputePsi_cong)
  have chi: "ComputeChi s' l i j k = ComputeChi s l i j k" for j k
    using f(2) prev by (rule ComputeChi_cong)
  have t: "activation_function_types s' ! l = activation_function_types s ! l"
    by (simp add: f(5))
  note a = ActivationFunction_indep[OF t f(3) f(4) tag]
  show ?thesis
  proof (cases "compute_gradient s")
    case True
    show ?thesis
    proof (cases "compute_second_gradient s")
      case c2: True
      show ?thesis
        unfolding chain_rule_at_def Let_def f(3,4) n0 x psi chi d1 d2 a(1)[OF True]
          a(2)[OF True c2] by (rule refl)
    next
      case False
      then show ?thesis
        unfolding chain_rule_at_def Let_def f(3,4) n0 x psi chi d1 d2 a(1)[OF True]
        by simp
    qed
  next
    case False
    then show ?thesis
      by (simp add: chain_rule_at_def f(3))
  qed
qed

lemma Predict_iNeuron_step:
  assumes ok: "layers_ok s"
      and L: "1 \<le> L" "L < length (total_layers s)"
      and m: "m < number_of_neurons (total_layers s ! L)"
      and inv: "chain_rule_upto s L m"
  shows "chain_rule_upto (Predict_iNeuron inputs L m s) L (Suc m)"
proof -
  define s' where "s' = Predict_iNeuron inputs L m s"
  define nIn where "nIn = number_of_neurons (total_layers s ! 0)"
  define s1 where "s1 = ActivationFunction s L (ComputeX s L m)"
  define nu where "nu = neuron_update (compute_gradient s) (compute_second_gradient s) nIn m
          (Phi s1) (Phi_prime s1) (Phi_dprime s1) (ComputePsi s L m) (ComputeChi s L m)
          (total_layers s ! L)"
  have st: "static s' = static s"
    by (simp add: s'_def static_Predict_iNeuron)
  note f = static_facts[OF st]
  have okL: "\<not> is_input (total_layers s ! L)"
            "activation_function_types s ! L \<noteq> UNRECOGNIZED"
            "row_ok nIn m (total_layers s ! L)"
    using ok L m by (simp_all add: layers_ok_def nIn_def)
  have tags: "activation_function_types s ! l \<noteq> UNRECOGNIZED"
    if "1 \<le> l" "l < length (total_layers s)" for l
    using ok that by (simp add: layers_ok_def)
  have T': "total_layers s' = (total_layers s)[L := nu]"
    unfolding s'_def Predict_iNeuron_lift[OF L okL(1)] nu_def s1_def nIn_def by simp
  have other: "total_layers s' ! l = total_layers s ! l" if "l \<noteq> L" for l
    using that by (simp add: T')
  have this_layer: "total_layers s' ! L = nu"
    using L by (simp add: T')
  have d1: "GetdYdX nu i j =
      (if compute_gradient s \<and> i = m \<and> j < nIn then ComputePsi s L m j * Phi_prime s1
       else GetdYdX (total_layers s ! L) i j)" for i j
    unfolding nu_def by (rule neuron_update_first[OF okL(3)])
  have d2: "Getd2YdX2 nu i j k =
      (if compute_gradient s \<and> compute_second_gradient s \<and> i = m \<and> j < nIn \<and> k < nIn
       then Phi_dprime s1 * ComputePsi s L m j * ComputePsi s L m k
            + Phi_prime s1 * ComputeChi s L m j k
       else Getd2YdX2 (total_layers s ! L) i j k)" for i j k
    unfolding nu_def by (rule neuron_update_second[OF okL(3)])
  have prevL: "total_layers s' ! (L - 1) = total_layers s ! (L - 1)"
    using L by (intro other) simp
  have earlier: "chain_rule_at s' l i" if "1 \<le> l" "l < L" "i < number_of_neurons (total_layers s' ! l)" for l i
  proof -
    have l: "l < length (total_layers s)" using that L by simp
    have e: "total_layers s' ! l = total_layers s ! l"
      using that by (intro other) simp
    have p: "total_layers s' ! (l - 1) = total_layers s ! (l - 1)"
      using that by (intro other) simp
    have "chain_rule_at s' l i = chain_rule_at s l i"
      using st that(1) l p by (rule chain_rule_at_cong) (simp_all add: e tags[OF that(1) l])
    moreover have "chain_rule_at s l i"
      using inv that by (simp add: chain_rule_upto_def e)
    ultimately show ?thesis by simp
  qed
  have before: "chain_rule_at s' L i" if "i < m" for i
  proof -
    have "chain_rule_at s' L i = chain_rule_at s L i"
      using st L prevL
    proof (rule chain_rule_at_cong)
      show "GetdYdX (total_layers s' ! L) i j = GetdYdX (total_layers s ! L) i j" for j
        using that by (simp add: this_layer d1)
      show "Getd2YdX2 (total_layers s' ! L) i j k = Getd2YdX2 (total_layers s ! L) i j k" for j k
        using that by (simp add: this_layer d2)
      show "activation_function_types s ! L \<noteq> UNRECOGNIZED"
        by (rule okL(2))
    qed
    moreover have "chain_rule_at s L i"
      using inv that L by (simp add: chain_rule_upto_def)
    ultimately show ?thesis by simp
  qed
  have now: "chain_rule_at s' L m"
  proof -
    have z: "0 \<noteq> L" using L by simp
    have n0: "number_of_neurons (total_layers s' ! 0) = nIn"
      using other[OF z] by (simp add: nIn_def)
    have "layer_static nu = layer_static (total_layers s ! L)"
      unfolding nu_def by (rule neuron_update_static)
    then have b: "bias (total_layers s' ! L) = bias (total_layers s ! L)"
      unfolding this_layer by (rule layer_static_facts)
    have x: "ComputeX s' L m = ComputeX s L m"
      using f(2) prevL b by (rule ComputeX_cong)
    have psi: "ComputePsi s' L m j = ComputePsi s L m j" for j
      using f(2) prevL by (rule ComputePsi_cong)
    have chi: "ComputeChi s' L m j k = ComputeChi s L m j k" for j k
      using f(2) prevL by (rule ComputeChi_cong)
    have t: "activation_function_types s' ! L = activation_function_types s ! L"
      by (simp add: f(5))
    note a = ActivationFunction_indep[OF t f(3) f(4) okL(2), of "ComputeX s L m", folded s1_def]
    show ?thesis
    proof (cases "compute_gradient s")
      case True
      show ?thesis
      proof (cases "compute_second_gradient s")
        case c2: True
        show ?thesis
          unfolding chain_rule_at_def Let_def f(3,4) n0 x psi chi this_layer d1 d2
            a(1)[OF True] a(2)[OF True c2]
          using True c2 by simp
      next
        case False
        then show ?thesis
          unfolding chain_rule_at_def Let_def f(3,4) n0 x psi chi this_layer d1 d2
            a(1)[OF True]
          using True by simp
      qed
    next
      case False
      then show ?thesis
        by (simp add: chain_rule_at_def f(3))
    qed
  qed
  have "chain_rule_at s' l i"
    if "(1 \<le> l \<and> l < L \<and> i < number_of_neurons (total_layers s' ! l)) \<or> (l = L \<and> 1 \<le> L \<and> i < Suc m)"
    for l i
    using that earlier before now by (auto simp: less_Suc_eq)
  then show ?thesis
    unfolding chain_rule_upto_def s'_def by blast
qed

section \<open>The loops over neurons and layers\<close>

lemma chain_rule_upto_next:
  "chain_rule_upto s L (number_of_neurons (total_layers s ! L)) \<Longrightarrow> chain_rule_upto s (Suc L) 0"
  unfolding chain_rule_upto_def by (auto simp: less_Suc_eq)

lemma chain_rule_upto_first: "chain_rule_upto s (Suc 0) 0"
  unfolding chain_rule_upto_def by auto

lemma Predict_iNeuron_steps:
  assumes ok: "layers_ok s"
      and L: "1 \<le> L" "L < length (total_layers s)"
      and inv: "chain_rule_upto s L 0"
      and m: "m \<le> number_of_neurons (total_layers s ! L)"
  shows "chain_rule_upto (fold (Predict_iNeuron inputs L) [0..<m] s) L m"
  using m
proof (induction m)
  case 0
  then show ?case using inv by simp
next
  case (Suc m)
  define t where "t = fold (Predict_iNeuron inputs L) [0..<m] s"
  have st: "static t = static s"
    unfolding t_def by (rule static_fold) (rule static_Predict_iNeuron)
  note f = static_facts[OF st]
  have okt: "layers_ok t"
    using ok layers_ok_static[OF st] by simp
  have Lt: "L < length (total_layers t)"
    using L by (simp add: f(6))
  have "number_of_neurons (total_layers t ! L) = number_of_neurons (total_layers s ! L)"
    using f(7)[OF L(2)] by (rule layer_static_facts)
  then have mt: "m < number_of_neurons (total_layers t ! L)"
    using Suc.prems by simp
  have "chain_rule_upto t L m"
    unfolding t_def using Suc by simp
  then have "chain_rule_upto (Predict_iNeuron inputs L m t) L (Suc m)"
    by (rule Predict_iNeuron_step[OF okt L(1) Lt mt])
  then show ?case
    by (simp add: t_def)
qed

lemma Predict_iLayer_step:
  assumes ok: "layers_ok s"
      and L: "L < length (total_layers s)"
      and inv: "1 \<le> L \<Longrightarrow> chain_rule_upto s L 0"
  shows "chain_rule_upto (Predict_iLayer inputs L s) (Suc L) 0"
proof (cases "1 \<le> L")
  case True
  define n where "n = number_of_neurons (total_layers s ! L)"
  define t where "t = Predict_iLayer inputs L s"
  have st: "static t = static s"
    unfolding t_def by (rule static_Predict_iLayer)
  have nt: "number_of_neurons (total_layers t ! L) = n"
    unfolding n_def using static_facts(7)[OF st L] by (rule layer_static_facts)
  have "chain_rule_upto t L n"
    unfolding t_def Predict_iLayer_def CLayer_GetNNeurons_def n_def
    using ok True L inv[OF True] by (rule Predict_iNeuron_steps) simp
  then show ?thesis
    unfolding t_def[symmetric] by (intro chain_rule_upto_next) (simp add: nt)
next
  case False
  then have "L = 0" by simp
  then show ?thesis by (simp add: chain_rule_upto_first)
qed

lemma Predict_iLayer_steps:
  assumes ok: "layers_ok s" and K: "1 \<le> K" "K \<le> length (total_layers s)"
  shows "chain_rule_upto (fold (Predict_iLayer inputs) [0..<K] s) K 0"
  using K
proof (induction K)
  case 0
  then show ?case by simp
next
  case (Suc K)
  define t where "t = fold (Predict_iLayer inputs) [0..<K] s"
  have st: "static t = static s"
    unfolding t_def by (rule static_fold) (rule static_Predict_iLayer)
  have okt: "layers_ok t"
    using ok layers_ok_static[OF st] by simp
  have Kt: "K < length (total_layers t)"
    using Suc.prems by (simp add: static_facts(6)[OF st])
  have inv: "chain_rule_upto t K 0" if "1 \<le> K"
    unfolding t_def using Suc that by simp
  have "chain_rule_upto (Predict_iLayer inputs K t) (Suc K) 0"
    using okt Kt inv by (rule Predict_iLayer_step)
  then show ?case
    by (simp add: t_def)
qed

lemma Predict_layers_chain_rule_at:
  assumes ok: "layers_ok s"
      and l: "1 \<le> l" "l < length (total_layers s)"
      and i: "i < number_of_neurons (total_layers s ! l)"
  shows "chain_rule_at (Predict_layers s inputs) l i"
proof -
  define t where "t = Predict_layers s inputs"
  have st: "static t = static s"
    unfolding t_def by (rule static_Predict_layers)
  have len: "length (total_layers s) = n_hidden_layers s + 2"
    using ok by (simp add: layers_ok_def)
  have "chain_rule_upto t (length (total_layers s)) 0"
    unfolding t_def Predict_layers_def len[symmetric]
    using ok by (rule Predict_iLayer_steps) (use l in simp_all)
  moreover have "number_of_neurons (total_layers t ! l) = number_of_neurons (total_layers s ! l)"
    using static_facts(7)[OF st l(2)] by (rule layer_static_facts)
  ultimately show ?thesis
    unfolding t_def[symmetric] chain_rule_upto_def using l i by simp
qed

section \<open>Sized networks and weighted sums\<close>

lemma sized_facts:
  assumes "sized s"
  shows "length (total_layers s) = n_hidden_layers s + 2"
    and "is_input (total_layers s ! 0)"
    and "1 \<le> l \<Longrightarrow> l < length (total_layers s) \<Longrightarrow> \<not> is_input (total_layers s ! l)"
    and "l < length (total_layers s) \<Longrightarrow>
           layer_sized (number_of_neurons (total_layers s ! 0)) (total_layers s ! l)"
    and "length (activation_function_types s) = length (total_layers s)"
    and "length (input_names s) = number_of_neurons (total_layers s ! 0)"
proof -
  show len: "length (total_layers s) = n_hidden_layers s + 2"
    using assms by (simp add: sized_def Let_def)
  then have ne: "total_layers s \<noteq> []" by auto
  have hd: "hd (total_layers s) = total_layers s ! 0"
    using ne by (rule hd_conv_nth)
  show "is_input (total_layers s ! 0)"
    using assms by (simp add: sized_def Let_def hd)
  show "\<not> is_input (total_layers s ! l)" if "1 \<le> l" "l < length (total_layers s)"
  proof -
    have "list_all (\<lambda>l. \<not> is_input l) (tl (total_layers s))"
      using assms by (simp add: sized_def Let_def)
    moreover have "total_layers s ! l = tl (total_layers s) ! (l - 1)"
      using that by (simp add: nth_tl)
    moreover have "l - 1 < length (tl (total_layers s))"
      using that by simp
    ultimately show ?thesis
      by (simp add: list_all_length)
  qed
  show "layer_sized (number_of_neurons (total_layers s ! 0)) (total_layers s ! l)"
    if "l < length (total_layers s)"
    using assms that by (simp add: sized_def Let_def hd list_all_length)
  show "length (activation_function_types s) = length (total_layers s)"
    using assms by (simp add: sized_def Let_def)
  show "length (input_names s) = number_of_neurons (total_layers s ! 0)"
    using assms by (simp add: sized_def Let_def hd)
qed

lemma layer_sized_row_ok:
  "layer_sized nIn lay \<Longrightarrow> i < number_of_neurons lay \<Longrightarrow> row_ok nIn i lay"
  by (simp add: layer_sized_def row_ok_def list_all_length)

lemma sized_layers_ok:
  assumes "sized s" and "UNRECOGNIZED \<notin> set (tl (activation_function_types s))"
  shows "layers_ok s"
proof -
  note f = sized_facts[OF assms(1)]
  have tag: "activation_function_types s ! l \<noteq> UNRECOGNIZED"
    if "1 \<le> l" "l < length (total_layers s)" for l
  proof -
    have "l - 1 < length (tl (activation_function_types s))"
      using that by (simp add: f(5))
    then have "tl (activation_function_types s) ! (l - 1) \<in> set (tl (activation_function_types s))"
      by (rule nth_mem)
    moreover have "tl (activation_function_types s) ! (l - 1) = activation_function_types s ! l"
      using that by (simp add: nth_tl f(5))
    ultimately show ?thesis
      using assms(2) by metis
  qed
  show ?thesis
    unfolding layers_ok_def using f(1) f(3) f(4) tag
    by (auto intro: layer_sized_row_ok)
qed

lemma fold_add_sum:
  "fold (\<lambda>q acc. acc + f q) [0..<n] (a::real) = a + sum f {..<n}"
  by (induction n) simp_all

lemma ComputePsi_sum:
  "ComputePsi s l i j =
     (\<Sum>q<number_of_neurons (total_layers s ! (l - 1)).
        weights_mat s ! (l - 1) ! i ! q * GetdYdX (total_layers s ! (l - 1)) q j)"
  by (simp add: ComputePsi_def fold_add_sum CLayer_GetNNeurons_def)

lemma ComputeChi_sum:
  "ComputeChi s l i j k =
     (\<Sum>q<number_of_neurons (total_layers s ! (l - 1)).
        weights_mat s ! (l - 1) ! i ! q * Getd2YdX2 (total_layers s ! (l - 1)) q j k)"
  by (simp add: ComputeChi_def fold_add_sum CLayer_GetNNeurons_def)

lemma ComputeX_sum:
  "ComputeX s l i =
     GetBias (total_layers s ! l) i +
     (\<Sum>q<number_of_neurons (total_layers s ! (l - 1)).
        weights_mat s ! (l - 1) ! i ! q * GetOutput (total_layers s ! (l - 1)) q)"
  by (simp add: ComputeX_def fold_add_sum CLayer_GetNNeurons_def Let_def)

lemma chain_rule_at_stored:
  assumes "chain_rule_at s l i" "compute_gradient s" "j < number_of_neurons (total_layers s ! 0)"
  shows "chain_rule_stored s l i j"
  using assms
  unfolding chain_rule_at_def chain_rule_stored_def Let_def ComputePsi_sum ComputeChi_sum
    ComputeX_sum
  by (simp add: mult.commute)

section \<open>The hidden layers under \<^verbatim>\<open>DeNormalizeOutputs\<close>\<close>

lemma hidden_frame_update_output:
  "layer_static (f (total_layers s ! outputLayer_index s))
     = layer_static (total_layers s ! outputLayer_index s) \<Longrightarrow>
   hidden_frame (update_layer (outputLayer_index s) f s) = hidden_frame s"
  by (simp add: hidden_frame_def static_update_layer outputLayer_index_def butlast_list_update)

lemma hidden_frame_fold:
  "(\<And>x s. hidden_frame (f x s) = hidden_frame s) \<Longrightarrow> hidden_frame (fold f xs s) = hidden_frame s"
  by (induction xs arbitrary: s) simp_all

lemma hidden_frame_buffers [simp]:
  "hidden_frame (s\<lparr>ANN_outputs := a\<rparr>) = hidden_frame s"
  "hidden_frame (s\<lparr>dOutputs_dInputs := b\<rparr>) = hidden_frame s"
  "hidden_frame (s\<lparr>d2Outputs_dInputs2 := c\<rparr>) = hidden_frame s"
  by (simp_all add: hidden_frame_def static_def)

lemma hidden_frame_DeNormalizeOutputs_kInput:
  "hidden_frame (DeNormalizeOutputs_kInput i c j k s) = hidden_frame s"
  by (simp add: DeNormalizeOutputs_kInput_def Let_def hidden_frame_update_output)

lemma hidden_frame_DeNormalizeOutputs_jInput:
  "hidden_frame (DeNormalizeOutputs_jInput i c j s) = hidden_frame s"
  by (simp add: DeNormalizeOutputs_jInput_def Let_def hidden_frame_update_output
      hidden_frame_fold hidden_frame_DeNormalizeOutputs_kInput)

lemma hidden_frame_DeNormalizeOutputs_iNeuron:
  "hidden_frame (DeNormalizeOutputs_iNeuron i s) = hidden_frame s"
  by (simp add: DeNormalizeOutputs_iNeuron_def Let_def hidden_frame_fold
      hidden_frame_DeNormalizeOutputs_jInput)

lemma hidden_frame_DeNormalizeOutputs:
  "hidden_frame (DeNormalizeOutputs s) = hidden_frame s"
  by (simp add: DeNormalizeOutputs_def hidden_frame_fold hidden_frame_DeNormalizeOutputs_iNeuron)

lemma hidden_frame_facts:
  assumes "hidden_frame s' = hidden_frame s"
  shows "static s' = static s"
    and "l < length (total_layers s) - 1 \<Longrightarrow> total_layers s' ! l = total_layers s ! l"
proof -
  show st: "static s' = static s"
    using assms by (simp add: hidden_frame_def)
  have b: "butlast (total_layers s') = butlast (total_layers s)"
    using assms by (simp add: hidden_frame_def)
  show "total_layers s' ! l = total_layers s ! l" if "l < length (total_layers s) - 1"
  proof -
    have "butlast (total_layers s') ! l = total_layers s' ! l"
      using that by (simp add: nth_butlast static_facts(6)[OF st])
    moreover have "butlast (total_layers s) ! l = total_layers s ! l"
      using that by (simp add: nth_butlast)
    ultimately show ?thesis by (simp add: b)
  qed
qed

lemma DeNormalizeOutputs_chain_rule_at:
  assumes l: "1 \<le> l" "l < length (total_layers s) - 1"
      and tag: "activation_function_types s ! l \<noteq> UNRECOGNIZED"
  shows "chain_rule_at (DeNormalizeOutputs s) l i = chain_rule_at s l i"
proof -
  note h = hidden_frame_facts[OF hidden_frame_DeNormalizeOutputs[of s]]
  have l': "l < length (total_layers s)" using l by simp
  have e: "total_layers (DeNormalizeOutputs s) ! l = total_layers s ! l"
    using l by (intro h(2)) simp
  have p: "total_layers (DeNormalizeOutputs s) ! (l - 1) = total_layers s ! (l - 1)"
    using l by (intro h(2)) simp
  show ?thesis
    using h(1) l(1) l' p by (rule chain_rule_at_cong) (simp_all add: e tag)
qed

section \<open>The output layer under \<^verbatim>\<open>DeNormalizeOutputs\<close>\<close>

lemma layer_static_fold:
  "(\<And>x l. layer_static (f x l) = layer_static l) \<Longrightarrow> layer_static (fold f xs l) = layer_static l"
  by (induction xs arbitrary: l) simp_all

lemma k_scale_first [simp]:
  "GetdYdX (fold (\<lambda>k lay. Setd2YdX2 lay i j k (c * Getd2YdX2 lay i j k)) ks lay) i' j'
     = GetdYdX lay i' j'"
  by (induction ks arbitrary: lay) simp_all

lemma k_scale_second:
  assumes "row_ok nIn i lay" "j < nIn" "\<forall>k\<in>set ks. k < nIn" "distinct ks"
  shows "Getd2YdX2 (fold (\<lambda>k lay. Setd2YdX2 lay i j k (c * Getd2YdX2 lay i j k)) ks lay) i' j' k' =
           (if i' = i \<and> j' = j \<and> k' \<in> set ks then c * Getd2YdX2 lay i' j' k'
            else Getd2YdX2 lay i' j' k')"
  using assms
proof (induction ks arbitrary: lay)
  case Nil
  then show ?case by simp
next
  case (Cons k ks)
  define lay1 where "lay1 = Setd2YdX2 lay i j k (c * Getd2YdX2 lay i j k)"
  have ok: "row_ok nIn i lay1"
    using Cons.prems(1) by (simp add: lay1_def)
  have k: "k < nIn" using Cons.prems(3) by simp
  have g: "Getd2YdX2 lay1 i' j' k' =
     (if i' = i \<and> j' = j \<and> k' = k then c * Getd2YdX2 lay i j k else Getd2YdX2 lay i' j' k')"
    for i' j' k'
    unfolding lay1_def using Cons.prems(1,2) k
    by (intro Getd2YdX2_Setd2YdX2) (auto simp: row_ok_def)
  have ks: "\<forall>k\<in>set ks. k < nIn" "distinct ks" "k \<notin> set ks"
    using Cons.prems(3,4) by simp_all
  have step: "fold (\<lambda>k lay. Setd2YdX2 lay i j k (c * Getd2YdX2 lay i j k)) (k # ks) lay
            = fold (\<lambda>k lay. Setd2YdX2 lay i j k (c * Getd2YdX2 lay i j k)) ks lay1"
    by (simp add: lay1_def)
  show ?case
    unfolding step Cons.IH[OF ok Cons.prems(2) ks(1,2)] g using ks(3) by auto
qed

lemma j_scale_first:
  assumes "row_ok nIn i lay" "\<forall>j\<in>set js. j < nIn" "distinct js"
  shows "GetdYdX
     (fold (\<lambda>j lay.
              if csg then
                fold (\<lambda>k lay. Setd2YdX2 lay i j k (c * Getd2YdX2 lay i j k))
                     ks (SetdYdX lay i j (c * GetdYdX lay i j))
              else SetdYdX lay i j (c * GetdYdX lay i j))
           js lay) i' j' =
     (if i' = i \<and> j' \<in> set js then c * GetdYdX lay i' j' else GetdYdX lay i' j')"
  using assms
proof (induction js arbitrary: lay)
  case Nil
  then show ?case by simp
next
  case (Cons j js)
  define lay2 where
    "lay2 = (if csg then
               fold (\<lambda>k lay. Setd2YdX2 lay i j k (c * Getd2YdX2 lay i j k))
                    ks (SetdYdX lay i j (c * GetdYdX lay i j))
             else SetdYdX lay i j (c * GetdYdX lay i j))"
  have st: "layer_static lay2 = layer_static lay"
    by (simp add: lay2_def layer_static_fold)
  have ok: "row_ok nIn i lay2"
    using Cons.prems(1) row_ok_static[OF st] by simp
  have j: "j < nIn" using Cons.prems(2) by simp
  have g1: "GetdYdX (SetdYdX lay i j (c * GetdYdX lay i j)) i' j' =
              (if i' = i \<and> j' = j then c * GetdYdX lay i j else GetdYdX lay i' j')" for i' j'
    using Cons.prems(1) j by (intro GetdYdX_SetdYdX) (auto simp: row_ok_def)
  have g2: "GetdYdX lay2 i' j' =
              (if i' = i \<and> j' = j then c * GetdYdX lay i j else GetdYdX lay i' j')" for i' j'
    by (cases csg) (simp_all add: lay2_def g1)
  have js: "\<forall>j\<in>set js. j < nIn" "distinct js" "j \<notin> set js"
    using Cons.prems(2,3) by simp_all
  have step: "fold (\<lambda>j lay.
              if csg then
                fold (\<lambda>k lay. Setd2YdX2 lay i j k (c * Getd2YdX2 lay i j k))
                     ks (SetdYdX lay i j (c * GetdYdX lay i j))
              else SetdYdX lay i j (c * GetdYdX lay i j)) (j # js) lay
            = fold (\<lambda>j lay.
              if csg then
                fold (\<lambda>k lay. Setd2YdX2 lay i j k (c * Getd2YdX2 lay i j k))
                     ks (SetdYdX lay i j (c * GetdYdX lay i j))
              else SetdYdX lay i j (c * GetdYdX lay i j)) js lay2"
    by (simp add: lay2_def)
  show ?case
    unfolding step Cons.IH[OF ok js(1,2)] g2 using js(3) by auto
qed

lemma j_scale_second:
  assumes "row_ok nIn i lay" "\<forall>j\<in>set js. j < nIn" "distinct js"
      and "\<forall>k\<in>set ks. k < nIn" "distinct ks"
  shows "Getd2YdX2
     (fold (\<lambda>j lay.
              if csg then
                fold (\<lambda>k lay. Setd2YdX2 lay i j k (c * Getd2YdX2 lay i j k))
                     ks (SetdYdX lay i j (c * GetdYdX lay i j))
              else SetdYdX lay i j (c * GetdYdX lay i j))
           js lay) i' j' k' =
     (if csg \<and> i' = i \<and> j' \<in> set js \<and> k' \<in> set ks then c * Getd2YdX2 lay i' j' k'
      else Getd2YdX2 lay i' j' k')"
  using assms(1,2,3)
proof (induction js arbitrary: lay)
  case Nil
  then show ?case by simp
next
  case (Cons j js)
  define lay1 where "lay1 = SetdYdX lay i j (c * GetdYdX lay i j)"
  define lay2 where
    "lay2 = (if csg then
               fold (\<lambda>k lay. Setd2YdX2 lay i j k (c * Getd2YdX2 lay i j k)) ks lay1
             else lay1)"
  have ok1: "row_ok nIn i lay1"
    using Cons.prems(1) by (simp add: lay1_def)
  have st: "layer_static lay2 = layer_static lay"
    by (simp add: lay2_def lay1_def layer_static_fold)
  have ok: "row_ok nIn i lay2"
    using Cons.prems(1) row_ok_static[OF st] by simp
  have j: "j < nIn" using Cons.prems(2) by simp
  have g1: "Getd2YdX2 lay1 i' j' k' = Getd2YdX2 lay i' j' k'" for i' j' k'
    by (simp add: lay1_def)
  have g2: "Getd2YdX2 lay2 i' j' k' =
      (if csg \<and> i' = i \<and> j' = j \<and> k' \<in> set ks then c * Getd2YdX2 lay i' j' k'
       else Getd2YdX2 lay i' j' k')" for i' j' k'
    using k_scale_second[OF ok1 j assms(4,5), of c i' j' k']
    by (cases csg) (simp_all add: lay2_def g1)
  have js: "\<forall>j\<in>set js. j < nIn" "distinct js" "j \<notin> set js"
    using Cons.prems(2,3) by simp_all
  have step: "fold (\<lambda>j lay.
              if csg then
                fold (\<lambda>k lay. Setd2YdX2 lay i j k (c * Getd2YdX2 lay i j k))
                     ks (SetdYdX lay i j (c * GetdYdX lay i j))
              else SetdYdX lay i j (c * GetdYdX lay i j)) (j # js) lay
            = fold (\<lambda>j lay.
              if csg then
                fold (\<lambda>k lay. Setd2YdX2 lay i j k (c * Getd2YdX2 lay i j k))
                     ks (SetdYdX lay i j (c * GetdYdX lay i j))
              else SetdYdX lay i j (c * GetdYdX lay i j)) js lay2"
    by (simp add: lay2_def lay1_def)
  show ?case
    unfolding step Cons.IH[OF ok js(1,2)] g2 using js(3) by auto
qed

lemma rescale_neuron_static:
  "layer_static (rescale_neuron cg csg nIn i c lay) = layer_static lay"
  by (simp add: rescale_neuron_def layer_static_fold)

lemma rescale_neuron_first:
  assumes "row_ok nIn i lay"
  shows "GetdYdX (rescale_neuron cg csg nIn i c lay) i' j' =
           (if cg \<and> i' = i \<and> j' < nIn then c * GetdYdX lay i' j' else GetdYdX lay i' j')"
proof (cases cg)
  case True
  have r: "\<forall>j\<in>set [0..<nIn]. j < nIn" "distinct [0..<nIn]"
    by simp_all
  note e = j_scale_first[OF assms r, where csg = csg and ks = "[0..<nIn]" and c = c]
  show ?thesis
    unfolding rescale_neuron_def if_P[OF True] e using True by simp
next
  case False
  show ?thesis
    unfolding rescale_neuron_def if_not_P[OF False] using False by simp
qed

lemma rescale_neuron_second:
  assumes "row_ok nIn i lay"
  shows "Getd2YdX2 (rescale_neuron cg csg nIn i c lay) i' j' k' =
           (if cg \<and> csg \<and> i' = i \<and> j' < nIn \<and> k' < nIn then c * Getd2YdX2 lay i' j' k'
            else Getd2YdX2 lay i' j' k')"
proof (cases cg)
  case True
  have r: "\<forall>j\<in>set [0..<nIn]. j < nIn" "distinct [0..<nIn]"
    by simp_all
  note e = j_scale_second[OF assms r r, where csg = csg and c = c]
  show ?thesis
    unfolding rescale_neuron_def if_P[OF True] e using True by simp
next
  case False
  show ?thesis
    unfolding rescale_neuron_def if_not_P[OF False] using False by simp
qed

lemma outputLayer_update:
  "total_layers s \<noteq> [] \<Longrightarrow>
   outputLayer (update_layer (outputLayer_index s) f s) = f (outputLayer s)"
  by (simp add: outputLayer_def outputLayer_index_def update_layer_def)

lemma outputLayer_buffers [simp]:
  "outputLayer (s\<lparr>ANN_outputs := a\<rparr>) = outputLayer s"
  "outputLayer (s\<lparr>dOutputs_dInputs := b\<rparr>) = outputLayer s"
  "outputLayer (s\<lparr>d2Outputs_dInputs2 := c\<rparr>) = outputLayer s"
  by (simp_all add: outputLayer_def outputLayer_index_def)

lemma fold_outputLayer:
  assumes "\<And>x s. static s = st \<Longrightarrow> static (F x s) = st \<and> outputLayer (F x s) = G x (outputLayer s)"
      and "static s = st"
  shows "static (fold F xs s) = st \<and> outputLayer (fold F xs s) = fold G xs (outputLayer s)"
  using assms(2)
proof (induction xs arbitrary: s)
  case Nil
  then show ?case by simp
next
  case (Cons x xs)
  from assms(1)[OF Cons.prems] Cons.IH[of "F x s"] show ?case by simp
qed

lemma static_of_hidden_frame: "hidden_frame s' = hidden_frame s \<Longrightarrow> static s' = static s"
  by (simp add: hidden_frame_def)

lemma DeNormalizeOutputs_output_layer:
  assumes len: "2 \<le> length (total_layers s)"
  shows "outputLayer (DeNormalizeOutputs s) =
           fold (\<lambda>i. rescale_neuron (compute_gradient s) (compute_second_gradient s)
                        (number_of_neurons (total_layers s ! 0)) i
                        (GetRegularizationScale s i False))
                [0..<number_of_neurons (outputLayer s)] (outputLayer s)"
proof -
  define nIn where "nIn = number_of_neurons (total_layers s ! 0)"
  have ne: "total_layers t \<noteq> []" and n0: "CLayer_GetNNeurons (inputLayer t) = nIn"
    and cg: "compute_gradient t = compute_gradient s"
    and csg: "compute_second_gradient t = compute_second_gradient s"
    and sc: "GetRegularizationScale t i False = GetRegularizationScale s i False"
    if "static t = static s" for t i
  proof -
    note f = static_facts[OF that]
    show "total_layers t \<noteq> []"
      using len f(6) by auto
    have z: "0 < length (total_layers s)" using len by linarith
    show "CLayer_GetNNeurons (inputLayer t) = nIn"
      unfolding CLayer_GetNNeurons_def inputLayer_def inputLayer_index_def nIn_def
      using f(7)[OF z] by (rule layer_static_facts)
    show "compute_gradient t = compute_gradient s" "compute_second_gradient t = compute_second_gradient s"
      by (rule f)+
    show "GetRegularizationScale t i False = GetRegularizationScale s i False"
      using that
      by (simp add: GetRegularizationScale_def static_def split: ENUM_SCALING_FUNCTIONS.split)
  qed
  have kb: "static (DeNormalizeOutputs_kInput i c j k t) = static s
          \<and> outputLayer (DeNormalizeOutputs_kInput i c j k t)
            = Setd2YdX2 (outputLayer t) i j k (c * Getd2YdX2 (outputLayer t) i j k)"
    if t: "static t = static s" for t i c j k
    using static_of_hidden_frame[OF hidden_frame_DeNormalizeOutputs_kInput[of i c j k t]] t
    by (simp add: DeNormalizeOutputs_kInput_def Let_def outputLayer_update[OF ne[OF t]])
  have jb: "static (DeNormalizeOutputs_jInput i c j t) = static s
          \<and> outputLayer (DeNormalizeOutputs_jInput i c j t)
            = (if compute_second_gradient s then
                 fold (\<lambda>k lay. Setd2YdX2 lay i j k (c * Getd2YdX2 lay i j k)) [0..<nIn]
                   (SetdYdX (outputLayer t) i j (c * GetdYdX (outputLayer t) i j))
               else SetdYdX (outputLayer t) i j (c * GetdYdX (outputLayer t) i j))"
    if t: "static t = static s" for t i c j
  proof -
    define t1 where "t1 = update_layer (outputLayer_index t)
          (\<lambda>l. SetdYdX l i j (c * GetdYdX (outputLayer t) i j)) t"
    define t2 where "t2 = t1\<lparr>dOutputs_dInputs :=
                  (dOutputs_dInputs t1)[i :=
                     (dOutputs_dInputs t1 ! i)[j := GetdYdX (outputLayer t1) i j]]\<rparr>"
    have s1: "static t1 = static s"
      using t by (simp add: t1_def static_update_layer)
    have s2: "static t2 = static s"
      using s1 by (simp add: t2_def static_def)
    have o2: "outputLayer t2 = SetdYdX (outputLayer t) i j (c * GetdYdX (outputLayer t) i j)"
      by (simp add: t2_def t1_def outputLayer_update[OF ne[OF t]])
    have e: "DeNormalizeOutputs_jInput i c j t =
              (if compute_second_gradient s then
                 fold (DeNormalizeOutputs_kInput i c j) [0..<nIn] t2 else t2)"
      by (simp add: DeNormalizeOutputs_jInput_def Let_def t1_def[symmetric] t2_def[symmetric]
          csg[OF s2] csg[OF s1] n0[OF s2])
    show ?thesis
      unfolding e using fold_outputLayer[of "static s" "DeNormalizeOutputs_kInput i c j"
          "\<lambda>k lay. Setd2YdX2 lay i j k (c * Getd2YdX2 lay i j k)" t2 "[0..<nIn]"] kb s2
      by (simp add: o2)
  qed
  have ib: "static (DeNormalizeOutputs_iNeuron i t) = static s
          \<and> outputLayer (DeNormalizeOutputs_iNeuron i t)
            = rescale_neuron (compute_gradient s) (compute_second_gradient s) nIn i
                (GetRegularizationScale s i False) (outputLayer t)"
    if t: "static t = static s" for t i
  proof -
    define c where "c = GetRegularizationScale s i False"
    define t1 where "t1 = t\<lparr>ANN_outputs := (ANN_outputs t)[i :=
          DimensionalizeOutput t (GetOutput (outputLayer t) i) i]\<rparr>"
    have s1: "static t1 = static s"
      using t by (simp add: t1_def static_def)
    have o1: "outputLayer t1 = outputLayer t"
      by (simp add: t1_def)
    have e: "DeNormalizeOutputs_iNeuron i t =
              (if compute_gradient s then fold (DeNormalizeOutputs_jInput i c) [0..<nIn] t1 else t1)"
      by (simp add: DeNormalizeOutputs_iNeuron_def Let_def t1_def[symmetric] c_def sc[OF t]
          cg[OF s1] cg[OF t] n0[OF s1])
    show ?thesis
      unfolding e c_def[symmetric] rescale_neuron_def
      using fold_outputLayer[of "static s" "DeNormalizeOutputs_jInput i c"
          "\<lambda>j lay. if compute_second_gradient s then
                 fold (\<lambda>k lay. Setd2YdX2 lay i j k (c * Getd2YdX2 lay i j k)) [0..<nIn]
                   (SetdYdX lay i j (c * GetdYdX lay i j))
               else SetdYdX lay i j (c * GetdYdX lay i j)" t1 "[0..<nIn]"] jb s1
      by (simp add: o1)
  qed
  show ?thesis
    unfolding DeNormalizeOutputs_def CLayer_GetNNeurons_def nIn_def[symmetric]
    using fold_outputLayer[of "static s" DeNormalizeOutputs_iNeuron
        "\<lambda>i. rescale_neuron (compute_gradient s) (compute_second_gradient s) nIn i
                (GetRegularizationScale s i False)" s
        "[0..<number_of_neurons (outputLayer s)]"] ib
    by simp
qed

lemma rescale_rows_first:
  assumes "\<forall>i\<in>set rows. row_ok nIn i lay" "distinct rows"
  shows "GetdYdX (fold (\<lambda>i. rescale_neuron cg csg nIn i (c i)) rows lay) i' j' =
           (if cg \<and> i' \<in> set rows \<and> j' < nIn then c i' * GetdYdX lay i' j'
            else GetdYdX lay i' j')"
  using assms
proof (induction rows arbitrary: lay)
  case Nil
  then show ?case by simp
next
  case (Cons i rows)
  define lay1 where "lay1 = rescale_neuron cg csg nIn i (c i) lay"
  have st: "layer_static lay1 = layer_static lay"
    unfolding lay1_def by (rule rescale_neuron_static)
  have step: "fold (\<lambda>i. rescale_neuron cg csg nIn i (c i)) (i # rows) lay
            = fold (\<lambda>i. rescale_neuron cg csg nIn i (c i)) rows lay1"
    by (simp add: lay1_def)
  have oki: "row_ok nIn i lay" using Cons.prems(1) by simp
  have ok: "\<forall>i\<in>set rows. row_ok nIn i lay1"
    using Cons.prems(1) unfolding row_ok_static[OF st] by auto
  have d: "distinct rows" "i \<notin> set rows" using Cons.prems(2) by simp_all
  have g: "GetdYdX lay1 i' j' =
      (if cg \<and> i' = i \<and> j' < nIn then c i * GetdYdX lay i' j' else GetdYdX lay i' j')"
    for i' j'
    unfolding lay1_def by (rule rescale_neuron_first[OF oki])
  show ?case
    unfolding step Cons.IH[OF ok d(1)] g using d(2) by auto
qed

lemma rescale_rows_second:
  assumes "\<forall>i\<in>set rows. row_ok nIn i lay" "distinct rows"
  shows "Getd2YdX2 (fold (\<lambda>i. rescale_neuron cg csg nIn i (c i)) rows lay) i' j' k' =
           (if cg \<and> csg \<and> i' \<in> set rows \<and> j' < nIn \<and> k' < nIn
            then c i' * Getd2YdX2 lay i' j' k' else Getd2YdX2 lay i' j' k')"
  using assms
proof (induction rows arbitrary: lay)
  case Nil
  then show ?case by simp
next
  case (Cons i rows)
  define lay1 where "lay1 = rescale_neuron cg csg nIn i (c i) lay"
  have st: "layer_static lay1 = layer_static lay"
    unfolding lay1_def by (rule rescale_neuron_static)
  have step: "fold (\<lambda>i. rescale_neuron cg csg nIn i (c i)) (i # rows) lay
            = fold (\<lambda>i. rescale_neuron cg csg nIn i (c i)) rows lay1"
    by (simp add: lay1_def)
  have oki: "row_ok nIn i lay" using Cons.prems(1) by simp
  have ok: "\<forall>i\<in>set rows. row_ok nIn i lay1"
    using Cons.prems(1) unfolding row_ok_static[OF st] by auto
  have d: "distinct rows" "i \<notin> set rows" using Cons.prems(2) by simp_all
  have g: "Getd2YdX2 lay1 i' j' k' =
      (if cg \<and> csg \<and> i' = i \<and> j' < nIn \<and> k' < nIn then c i * Getd2YdX2 lay i' j' k'
       else Getd2YdX2 lay i' j' k')" for i' j' k'
    unfolding lay1_def by (rule rescale_neuron_second[OF oki])
  show ?case
    unfolding step Cons.IH[OF ok d(1)] g using d(2) by auto
qed

lemma DeNormalizeOutputs_rescales:
  assumes "layers_ok s"
  shows "GetdYdX (outputLayer (DeNormalizeOutputs s)) i j =
           (if compute_gradient s \<and> i < number_of_neurons (outputLayer s)
               \<and> j < number_of_neurons (total_layers s ! 0)
            then GetRegularizationScale s i False * GetdYdX (outputLayer s) i j
            else GetdYdX (outputLayer s) i j)"
    and "Getd2YdX2 (outputLayer (DeNormalizeOutputs s)) i j k =
           (if compute_gradient s \<and> compute_second_gradient s
               \<and> i < number_of_neurons (outputLayer s)
               \<and> j < number_of_neurons (total_layers s ! 0)
               \<and> k < number_of_neurons (total_layers s ! 0)
            then GetRegularizationScale s i False * Getd2YdX2 (outputLayer s) i j k
            else Getd2YdX2 (outputLayer s) i j k)"
proof -
  have len: "2 \<le> length (total_layers s)"
    using assms by (simp add: layers_ok_def)
  have ok: "\<forall>i\<in>set [0..<number_of_neurons (outputLayer s)].
              row_ok (number_of_neurons (total_layers s ! 0)) i (outputLayer s)"
    using assms len by (simp add: layers_ok_def outputLayer_def outputLayer_index_def)
  have d: "distinct [0..<number_of_neurons (outputLayer s)]"
    by simp
  show "GetdYdX (outputLayer (DeNormalizeOutputs s)) i j =
           (if compute_gradient s \<and> i < number_of_neurons (outputLayer s)
               \<and> j < number_of_neurons (total_layers s ! 0)
            then GetRegularizationScale s i False * GetdYdX (outputLayer s) i j
            else GetdYdX (outputLayer s) i j)"
    unfolding DeNormalizeOutputs_output_layer[OF len] rescale_rows_first[OF ok d] by simp
  show "Getd2YdX2 (outputLayer (DeNormalizeOutputs s)) i j k =
           (if compute_gradient s \<and> compute_second_gradient s
               \<and> i < number_of_neurons (outputLayer s)
               \<and> j < number_of_neurons (total_layers s ! 0)
               \<and> k < number_of_neurons (total_layers s ! 0)
            then GetRegularizationScale s i False * Getd2YdX2 (outputLayer s) i j k
            else Getd2YdX2 (outputLayer s) i j k)"
    unfolding DeNormalizeOutputs_output_layer[OF len] rescale_rows_second[OF ok d] by simp
qed

lemma static_GetRegularizationScale:
  "static t = static s \<Longrightarrow> GetRegularizationScale t i b = GetRegularizationScale s i b"
  by (simp add: GetRegularizationScale_def static_def split: ENUM_SCALING_FUNCTIONS.split)

lemma Predict_output_layer_rescaled:
  assumes ok: "layers_ok net"
      and l: "l = length (total_layers net) - 1"
      and i: "i < number_of_neurons (total_layers net ! l)"
      and j: "j < number_of_neurons (total_layers net ! 0)"
      and cg: "compute_gradient net"
  shows "GetdYdX (total_layers (Predict net inputs) ! l) i j =
           GetRegularizationScale net i False *
           GetdYdX (total_layers (Predict_layers net inputs) ! l) i j"
    and "compute_second_gradient net \<Longrightarrow> k < number_of_neurons (total_layers net ! 0) \<Longrightarrow>
         Getd2YdX2 (total_layers (Predict net inputs) ! l) i j k =
           GetRegularizationScale net i False *
           Getd2YdX2 (total_layers (Predict_layers net inputs) ! l) i j k"
proof -
  define mid where "mid = Predict_layers net inputs"
  have st: "static mid = static net"
    unfolding mid_def by (rule static_Predict_layers)
  note f = static_facts[OF st]
  have okm: "layers_ok mid"
    using ok layers_ok_static[OF st] by simp
  have st2: "static (DeNormalizeOutputs mid) = static mid"
    using hidden_frame_DeNormalizeOutputs by (rule static_of_hidden_frame)
  have len: "length (total_layers net) = n_hidden_layers net + 2"
    using ok by (simp add: layers_ok_def)
  have lt: "l < length (total_layers net)" and z: "0 < length (total_layers net)"
    using l len by simp_all
  have om: "outputLayer mid = total_layers mid ! l"
    by (simp add: outputLayer_def outputLayer_index_def f(6) l)
  have od: "outputLayer (DeNormalizeOutputs mid) = total_layers (DeNormalizeOutputs mid) ! l"
    by (simp add: outputLayer_def outputLayer_index_def static_facts(6)[OF st2] f(6) l)
  have nl: "number_of_neurons (total_layers mid ! l) = number_of_neurons (total_layers net ! l)"
    using f(7)[OF lt] by (rule layer_static_facts)
  have n0: "number_of_neurons (total_layers mid ! 0) = number_of_neurons (total_layers net ! 0)"
    using f(7)[OF z] by (rule layer_static_facts)
  have sc: "GetRegularizationScale mid i False = GetRegularizationScale net i False" for i
    using st by (rule static_GetRegularizationScale)
  note r = DeNormalizeOutputs_rescales[OF okm, unfolded om od nl n0 sc f(3) f(4)]
  show "GetdYdX (total_layers (Predict net inputs) ! l) i j =
           GetRegularizationScale net i False *
           GetdYdX (total_layers (Predict_layers net inputs) ! l) i j"
    unfolding Predict_def mid_def[symmetric] r(1) using i j cg by simp
  show "Getd2YdX2 (total_layers (Predict net inputs) ! l) i j k =
           GetRegularizationScale net i False *
           Getd2YdX2 (total_layers (Predict_layers net inputs) ! l) i j k"
    if "compute_second_gradient net" "k < number_of_neurons (total_layers net ! 0)"
    unfolding Predict_def mid_def[symmetric] r(2) using i j cg that by simp
qed

section \<open>The chain rule of \<^verbatim>\<open>Predict\<close>\<close>

lemma example_gradient_sized:
  "sized (example_net\<lparr>output_norm := [(0, 2)], compute_gradient := True,
                        compute_second_gradient := True\<rparr>)"
  by (simp add: sized_def example_net_def zero_layer_def layer_sized_def Let_def numeral_2_eq_2)

lemma example_gradient_layers:
  "map dy_dx (total_layers (Predict_layers
      (example_net\<lparr>output_norm := [(0, 2)], compute_gradient := True,
                    compute_second_gradient := True\<rparr>) [1 / 2, 1 / 2]))
   = [[[1, 0], [0, 1]], [[1, 0], [0, 1]], [[1, 1]]]"
  by (simp add: Predict_layers_def Predict_iLayer_def Predict_iNeuron_def Predict_jInput_def
      Predict_kInput_def ComputeInputLayer_def ComputeInputLayer_jInput_def
      ComputeInputLayer_kInput_def ActivationFunction_def ComputeX_def ComputePsi_def
      ComputeChi_def NormalizeInput_def GetRegularizationScale_def update_layer_def
      inputLayer_def inputLayer_index_def CLayer_GetNNeurons_def IsInput_def SetOutput_def
      GetOutput_def GetBias_def SetdYdX_def GetdYdX_def Setd2YdX2_def Getd2YdX2_def
      example_net_def zero_layer_def Let_def upt_rec numeral_2_eq_2)

lemma Predict_layers_chain_rule_stored:
  assumes "sized net" and "length inputs = GetnInputs net"
      and "compute_gradient net"
      and "UNRECOGNIZED \<notin> set (tl (activation_function_types net))"
      and "1 \<le> l" and "l < length (total_layers net)"
      and "i < GetNNeurons net l" and "j < GetnInputs net"
  shows "chain_rule_stored (Predict_layers net inputs) l i j
       \<and> (l < length (total_layers net) - 1 \<longrightarrow> chain_rule_stored (Predict net inputs) l i j)"
proof -
  define mid where "mid = Predict_layers net inputs"
  have ok: "layers_ok net"
    using assms(1,4) by (rule sized_layers_ok)
  have i: "i < number_of_neurons (total_layers net ! l)"
    using assms(7) by (simp add: GetNNeurons_def CLayer_GetNNeurons_def)
  have st: "static mid = static net"
    unfolding mid_def by (rule static_Predict_layers)
  note f = static_facts[OF st]
  have z: "0 < length (total_layers net)" using assms(6) by linarith
  have n0: "number_of_neurons (total_layers mid ! 0) = number_of_neurons (total_layers net ! 0)"
    using f(7)[OF z] by (rule layer_static_facts)
  have j: "j < number_of_neurons (total_layers mid ! 0)"
    using assms(8) sized_facts(6)[OF assms(1)] by (simp add: GetnInputs_def n0)
  have cg: "compute_gradient mid"
    using assms(3) by (simp add: f(3))
  have at: "chain_rule_at mid l i"
    unfolding mid_def using ok assms(5,6) i by (rule Predict_layers_chain_rule_at)
  have a: "chain_rule_stored mid l i j"
    using at cg j by (rule chain_rule_at_stored)
  have b: "chain_rule_stored (DeNormalizeOutputs mid) l i j"
    if h: "l < length (total_layers net) - 1"
  proof -
    have tag: "activation_function_types mid ! l \<noteq> UNRECOGNIZED"
      using ok assms(5,6) by (simp add: layers_ok_def f(5))
    have lm: "l < length (total_layers mid) - 1"
      using h by (simp add: f(6))
    have "chain_rule_at (DeNormalizeOutputs mid) l i"
      using at DeNormalizeOutputs_chain_rule_at[OF assms(5) lm tag] by simp
    moreover note hf = hidden_frame_facts[OF hidden_frame_DeNormalizeOutputs[of mid]]
    have "compute_gradient (DeNormalizeOutputs mid)"
      using cg by (simp add: static_facts(3)[OF hf(1)])
    moreover have "number_of_neurons (total_layers (DeNormalizeOutputs mid) ! 0)
                    = number_of_neurons (total_layers mid ! 0)"
      using lm by (subst hf(2)) simp_all
    ultimately show ?thesis
      using j by (intro chain_rule_at_stored) simp_all
  qed
  show ?thesis
    using a b by (simp add: mid_def Predict_def)
qed


text \<open>
  C1: in a sized network whose non-input layers have a tag among the enumerators, with
  first-derivative mode enabled, the loops of \<^verbatim>\<open>Predict\<close> store for every neuron \<open>i\<close> of
  every non-input layer \<open>l\<close> and every input \<open>j\<close> the derivative \<open>Phi1 * psi j\<close> and, with
  second-derivative mode also enabled, for every pair \<open>(j, k)\<close> the second derivative
  \<open>Phi2 * psi j * psi k + Phi1 * chi j k\<close>, where \<open>psi\<close> and \<open>chi\<close> are the weighted sums of
  the previous layer's first and second derivatives and \<open>Phi1\<close>, \<open>Phi2\<close> the activation's
  derivatives at the bias plus the weighted sum of the previous layer's outputs
  (\<open>chain_rule_stored\<close>). This holds in the state in which \<^verbatim>\<open>Predict\<close> calls
  \<^verbatim>\<open>DeNormalizeOutputs\<close>, and for the hidden layers also in the state that \<^verbatim>\<open>Predict\<close>
  returns. \<^verbatim>\<open>DeNormalizeOutputs\<close>, the output stage, then multiplies the entries stored for
  the output layer by the output scale of the neuron.
\<close>

theorem Predict_chain_rule:
  assumes "sized net" and "length inputs = GetnInputs net"
      and "compute_gradient net"
      and "UNRECOGNIZED \<notin> set (tl (activation_function_types net))"
      and "1 \<le> l" and "l < length (total_layers net)"
      and "i < GetNNeurons net l" and "j < GetnInputs net"
  shows "chain_rule_stored (Predict_layers net inputs) l i j
       \<and> (l < length (total_layers net) - 1 \<longrightarrow> chain_rule_stored (Predict net inputs) l i j)
       \<and> (l = length (total_layers net) - 1 \<longrightarrow>
            GetdYdX (total_layers (Predict net inputs) ! l) i j =
              GetRegularizationScale net i False *
              GetdYdX (total_layers (Predict_layers net inputs) ! l) i j
          \<and> (compute_second_gradient net \<longrightarrow>
               (\<forall>k<GetnInputs net.
                  Getd2YdX2 (total_layers (Predict net inputs) ! l) i j k =
                    GetRegularizationScale net i False *
                    Getd2YdX2 (total_layers (Predict_layers net inputs) ! l) i j k)))"
proof -
  have ok: "layers_ok net"
    using assms(1,4) by (rule sized_layers_ok)
  have i: "i < number_of_neurons (total_layers net ! l)"
    using assms(7) by (simp add: GetNNeurons_def CLayer_GetNNeurons_def)
  have n: "GetnInputs net = number_of_neurons (total_layers net ! 0)"
    using sized_facts(6)[OF assms(1)] by (simp add: GetnInputs_def)
  have j: "j < number_of_neurons (total_layers net ! 0)"
    using assms(8) by (simp add: n)
  have ab: "chain_rule_stored (Predict_layers net inputs) l i j
       \<and> (l < length (total_layers net) - 1 \<longrightarrow> chain_rule_stored (Predict net inputs) l i j)"
    using Predict_layers_chain_rule_stored[OF assms] .
  have c: "GetdYdX (total_layers (Predict net inputs) ! l) i j =
              GetRegularizationScale net i False *
              GetdYdX (total_layers (Predict_layers net inputs) ! l) i j
          \<and> (compute_second_gradient net \<longrightarrow>
               (\<forall>k<GetnInputs net.
                  Getd2YdX2 (total_layers (Predict net inputs) ! l) i j k =
                    GetRegularizationScale net i False *
                    Getd2YdX2 (total_layers (Predict_layers net inputs) ! l) i j k))"
    if l: "l = length (total_layers net) - 1"
    using Predict_output_layer_rescaled[OF ok l i j assms(3)] by (simp add: n)
  show ?thesis
    using ab c by blast
qed

theorem Predict_chain_rule_witness:
  "sized (example_net\<lparr>output_norm := [(0, 2)], compute_gradient := True,
                        compute_second_gradient := True\<rparr>)
   \<and> chain_rule_stored
       (Predict_layers
          (example_net\<lparr>output_norm := [(0, 2)], compute_gradient := True,
                        compute_second_gradient := True\<rparr>)
          [1 / 2, 1 / 2]) 2 0 1
   \<and> chain_rule_stored
       (Predict (example_net\<lparr>output_norm := [(0, 2)], compute_gradient := True,
                              compute_second_gradient := True\<rparr>)
          [1 / 2, 1 / 2]) 1 1 1
   \<and> map dy_dx (total_layers (Predict_layers
        (example_net\<lparr>output_norm := [(0, 2)], compute_gradient := True,
                      compute_second_gradient := True\<rparr>)
        [1 / 2, 1 / 2]))
     = [[[1, 0], [0, 1]], [[1, 0], [0, 1]], [[1, 1]]]
   \<and> GetdYdX (total_layers (Predict
        (example_net\<lparr>output_norm := [(0, 2)], compute_gradient := True,
                      compute_second_gradient := True\<rparr>)
        [1 / 2, 1 / 2]) ! 2) 0 1 = 2"
proof -
  define ex where
    "ex = example_net\<lparr>output_norm := [(0, 2)], compute_gradient := True,
                       compute_second_gradient := True\<rparr>"
  have s: "sized ex"
    unfolding ex_def by (rule example_gradient_sized)
  have n: "length [1 / 2, 1 / 2 :: real] = GetnInputs ex"
    by (simp add: ex_def GetnInputs_def example_net_def)
  have g: "compute_gradient ex"
    by (simp add: ex_def)
  have t: "UNRECOGNIZED \<notin> set (tl (activation_function_types ex))"
    by (simp add: ex_def example_net_def)
  have mid: "map dy_dx (total_layers (Predict_layers ex [1 / 2, 1 / 2]))
               = [[[1, 0], [0, 1]], [[1, 0], [0, 1]], [[1, 1]]]"
    unfolding ex_def by (rule example_gradient_layers)
  then have m21: "GetdYdX (total_layers (Predict_layers ex [1 / 2, 1 / 2]) ! 2) 0 1 = 1"
    by (simp add: GetdYdX_def list_eq_iff_nth_eq)
  have sc: "GetRegularizationScale ex 0 False = 2"
    by (simp add: ex_def example_net_def GetRegularizationScale_def)
  have out: "chain_rule_stored (Predict_layers ex [1 / 2, 1 / 2]) 2 0 1
           \<and> GetdYdX (total_layers (Predict ex [1 / 2, 1 / 2]) ! 2) 0 1 = 2"
    using Predict_chain_rule[OF s n g t, of 2 0 1] m21 sc
    by (simp add: ex_def example_net_def GetNNeurons_def CLayer_GetNNeurons_def GetnInputs_def
        zero_layer_def)
  have hid: "chain_rule_stored (Predict ex [1 / 2, 1 / 2]) 1 1 1"
    using Predict_chain_rule[OF s n g t, of 1 1 1]
    by (simp add: ex_def example_net_def GetNNeurons_def CLayer_GetNNeurons_def GetnInputs_def
        zero_layer_def)
  show ?thesis
    using s out hid mid by (simp add: ex_def)
qed

section \<open>Evaluation without gradients\<close>

lemma no_gradient_iNeuron:
  assumes "\<not> compute_gradient s"
  shows "\<not> compute_gradient (Predict_iNeuron inputs l i s)
       \<and> gradient_buffers (Predict_iNeuron inputs l i s) = gradient_buffers s"
proof -
  have a: "dOutputs_dInputs (ActivationFunction s l x) = dOutputs_dInputs s"
          "d2Outputs_dInputs2 (ActivationFunction s l x) = d2Outputs_dInputs2 s" for x
    by (subst ActivationFunction_frame, simp)+
  show ?thesis
    using assms
    by (simp add: Predict_iNeuron_def ComputeInputLayer_def Let_def update_layer_def a
        gradient_buffers_def SetOutput_def map_list_update_same)
qed

lemma no_gradient_fold:
  assumes "\<And>x s. \<not> compute_gradient s \<Longrightarrow>
             \<not> compute_gradient (f x s) \<and> gradient_buffers (f x s) = gradient_buffers s"
      and "\<not> compute_gradient s"
  shows "\<not> compute_gradient (fold f xs s) \<and> gradient_buffers (fold f xs s) = gradient_buffers s"
  using assms(2)
proof (induction xs arbitrary: s)
  case Nil
  then show ?case by simp
next
  case (Cons x xs)
  from assms(1)[OF Cons.prems] Cons.IH[of "f x s"] show ?case by simp
qed

lemma no_gradient_iLayer:
  assumes "\<not> compute_gradient s"
  shows "\<not> compute_gradient (Predict_iLayer inputs l s)
       \<and> gradient_buffers (Predict_iLayer inputs l s) = gradient_buffers s"
  unfolding Predict_iLayer_def using no_gradient_iNeuron assms by (rule no_gradient_fold)

lemma no_gradient_layers:
  assumes "\<not> compute_gradient s"
  shows "\<not> compute_gradient (Predict_layers s inputs)
       \<and> gradient_buffers (Predict_layers s inputs) = gradient_buffers s"
  unfolding Predict_layers_def using no_gradient_iLayer assms by (rule no_gradient_fold)

lemma no_gradient_DeNormalizeOutputs_iNeuron:
  assumes "\<not> compute_gradient s"
  shows "\<not> compute_gradient (DeNormalizeOutputs_iNeuron i s)
       \<and> gradient_buffers (DeNormalizeOutputs_iNeuron i s) = gradient_buffers s"
  using assms by (simp add: DeNormalizeOutputs_iNeuron_def Let_def gradient_buffers_def)

lemma no_gradient_DeNormalizeOutputs:
  assumes "\<not> compute_gradient s"
  shows "\<not> compute_gradient (DeNormalizeOutputs s)
       \<and> gradient_buffers (DeNormalizeOutputs s) = gradient_buffers s"
  unfolding DeNormalizeOutputs_def
  using no_gradient_DeNormalizeOutputs_iNeuron assms by (rule no_gradient_fold)

lemma example_second_only_sized:
  "sized (example_net\<lparr>dOutputs_dInputs := [[7, 7]], compute_second_gradient := True\<rparr>)"
  by (simp add: sized_def example_net_def zero_layer_def layer_sized_def Let_def numeral_2_eq_2)

lemma example_second_only_outputs:
  "ANN_outputs
     (Predict (example_net\<lparr>dOutputs_dInputs := [[7, 7]], compute_second_gradient := True\<rparr>)
        [1 / 2, 1 / 4]) = [3 / 4]"
  by (simp add: Predict_def DeNormalizeOutputs_def DeNormalizeOutputs_iNeuron_def
      DimensionalizeOutput_def outputLayer_def outputLayer_index_def
      Predict_layers_def Predict_iLayer_def Predict_iNeuron_def
      ComputeInputLayer_def ActivationFunction_def ComputeX_def
      NormalizeInput_def GetRegularizationScale_def update_layer_def
      inputLayer_def inputLayer_index_def CLayer_GetNNeurons_def IsInput_def SetOutput_def
      GetOutput_def GetBias_def
      example_net_def zero_layer_def Let_def upt_rec numeral_2_eq_2)

text \<open>
  C10: for a sized network with the first-order flag off, a call of \<^verbatim>\<open>Predict\<close> leaves the
  first- and second-derivative buffers of every layer and the buffers \<open>dOutputs_dInputs\<close>
  and \<open>d2Outputs_dInputs2\<close> of the network as they were, whatever the second-order flag is.
\<close>

theorem Predict_no_gradient_frame:
  assumes "sized net" and "length inputs = GetnInputs net" and "\<not> compute_gradient net"
  shows "map dy_dx (total_layers (Predict net inputs)) = map dy_dx (total_layers net)
       \<and> map d2y_dx2 (total_layers (Predict net inputs)) = map d2y_dx2 (total_layers net)
       \<and> dOutputs_dInputs (Predict net inputs) = dOutputs_dInputs net
       \<and> d2Outputs_dInputs2 (Predict net inputs) = d2Outputs_dInputs2 net"
proof -
  have "gradient_buffers (Predict net inputs) = gradient_buffers net"
    using no_gradient_layers[OF assms(3), of inputs]
      no_gradient_DeNormalizeOutputs[of "Predict_layers net inputs"]
    by (simp add: Predict_def)
  then show ?thesis
    by (simp add: gradient_buffers_def)
qed

theorem Predict_no_gradient_frame_witness:
  "sized (example_net\<lparr>dOutputs_dInputs := [[7, 7]], compute_second_gradient := True\<rparr>)
   \<and> \<not> compute_gradient
         (example_net\<lparr>dOutputs_dInputs := [[7, 7]], compute_second_gradient := True\<rparr>)
   \<and> compute_second_gradient
         (example_net\<lparr>dOutputs_dInputs := [[7, 7]], compute_second_gradient := True\<rparr>)
   \<and> ANN_outputs
       (Predict (example_net\<lparr>dOutputs_dInputs := [[7, 7]], compute_second_gradient := True\<rparr>)
          [1 / 2, 1 / 4]) = [3 / 4]
   \<and> dOutputs_dInputs
       (Predict (example_net\<lparr>dOutputs_dInputs := [[7, 7]], compute_second_gradient := True\<rparr>)
          [1 / 2, 1 / 4]) = [[7, 7]]
   \<and> map d2y_dx2 (total_layers
       (Predict (example_net\<lparr>dOutputs_dInputs := [[7, 7]], compute_second_gradient := True\<rparr>)
          [1 / 2, 1 / 4]))
     = map d2y_dx2 (total_layers example_net)"
proof -
  define ex where
    "ex = example_net\<lparr>dOutputs_dInputs := [[7, 7]], compute_second_gradient := True\<rparr>"
  have s: "sized ex"
    unfolding ex_def by (rule example_second_only_sized)
  have n: "length [1 / 2, 1 / 4 :: real] = GetnInputs ex"
    by (simp add: ex_def GetnInputs_def example_net_def)
  have g: "\<not> compute_gradient ex"
    by (simp add: ex_def example_net_def)
  have o: "ANN_outputs (Predict ex [1 / 2, 1 / 4]) = [3 / 4]"
    unfolding ex_def by (rule example_second_only_outputs)
  show ?thesis
    using s g o Predict_no_gradient_frame[OF s n g]
    by (simp add: ex_def example_net_def)
qed

end
